theory Spec2Isabelle
  imports Complex_Main
begin

section \<open>Sinc-based parameterized filterbank (asteroid/filterbanks/param_sinc.py)\<close>

text \<open>
  The module computes with floating-point tensors. The embedding idealises a float as
  an exact real number (no rounding, no overflow, no signed zero) extended by the three
  non-finite values of IEEE arithmetic, so that a division by zero, which numpy and
  torch answer with an infinity or a NaN instead of raising, is a value of the model and
  not HOL's \<open>x / 0 = 0\<close>.  A zero divisor is taken to be \<open>+0\<close>, which is what the
  subtraction \<open>x - x\<close> and the integer literal \<open>0\<close> give.
\<close>

subsection \<open>Floating-point values\<close>

datatype fl = Fin real | PInf | NInf | NaN

definition inf_of_sign :: "real \<Rightarrow> fl" where
  "inf_of_sign a = (if 0 < a then PInf else if a < 0 then NInf else NaN)"

fun is_finite :: "fl \<Rightarrow> bool" where
  "is_finite (Fin x) = True"
| "is_finite PInf = False"
| "is_finite NInf = False"
| "is_finite NaN = False"

fun fneg :: "fl \<Rightarrow> fl" where
  "fneg (Fin a) = Fin (- a)"
| "fneg PInf = NInf"
| "fneg NInf = PInf"
| "fneg NaN = NaN"

fun fadd :: "fl \<Rightarrow> fl \<Rightarrow> fl" where
  "fadd (Fin a) (Fin b) = Fin (a + b)"
| "fadd NaN y = NaN"
| "fadd x NaN = NaN"
| "fadd PInf NInf = NaN"
| "fadd NInf PInf = NaN"
| "fadd PInf y = PInf"
| "fadd x PInf = PInf"
| "fadd NInf y = NInf"
| "fadd x NInf = NInf"

definition fsub :: "fl \<Rightarrow> fl \<Rightarrow> fl" where
  "fsub x y = fadd x (fneg y)"

fun fmul :: "fl \<Rightarrow> fl \<Rightarrow> fl" where
  "fmul (Fin a) (Fin b) = Fin (a * b)"
| "fmul NaN y = NaN"
| "fmul x NaN = NaN"
| "fmul (Fin a) PInf = inf_of_sign a"
| "fmul (Fin a) NInf = inf_of_sign (- a)"
| "fmul PInf (Fin b) = inf_of_sign b"
| "fmul NInf (Fin b) = inf_of_sign (- b)"
| "fmul PInf PInf = PInf"
| "fmul PInf NInf = NInf"
| "fmul NInf PInf = NInf"
| "fmul NInf NInf = PInf"

fun fdiv :: "fl \<Rightarrow> fl \<Rightarrow> fl" where
  "fdiv (Fin a) (Fin b) = (if b = 0 then inf_of_sign a else Fin (a / b))"
| "fdiv NaN y = NaN"
| "fdiv x NaN = NaN"
| "fdiv (Fin a) PInf = Fin 0"
| "fdiv (Fin a) NInf = Fin 0"
| "fdiv PInf (Fin b) = (if b < 0 then NInf else PInf)"
| "fdiv NInf (Fin b) = (if b < 0 then PInf else NInf)"
| "fdiv PInf PInf = NaN"
| "fdiv PInf NInf = NaN"
| "fdiv NInf PInf = NaN"
| "fdiv NInf NInf = NaN"

fun fabs :: "fl \<Rightarrow> fl" where
  "fabs (Fin a) = Fin \<bar>a\<bar>"
| "fabs PInf = PInf"
| "fabs NInf = PInf"
| "fabs NaN = NaN"

fun fsin :: "fl \<Rightarrow> fl" where
  "fsin (Fin a) = Fin (sin a)"
| "fsin PInf = NaN"
| "fsin NInf = NaN"
| "fsin NaN = NaN"

fun fcos :: "fl \<Rightarrow> fl" where
  "fcos (Fin a) = Fin (cos a)"
| "fcos PInf = NaN"
| "fcos NInf = NaN"
| "fcos NaN = NaN"

text \<open>\<open>np.log10\<close>: minus infinity at zero, NaN below it.\<close>

fun flog10 :: "fl \<Rightarrow> fl" where
  "flog10 (Fin a) = (if 0 < a then Fin (log 10 a) else if a = 0 then NInf else NaN)"
| "flog10 PInf = PInf"
| "flog10 NInf = NaN"
| "flog10 NaN = NaN"

text \<open>\<open>10 ** x\<close> on a numpy float.\<close>

fun fpow10 :: "fl \<Rightarrow> fl" where
  "fpow10 (Fin a) = Fin (10 powr a)"
| "fpow10 PInf = PInf"
| "fpow10 NInf = Fin 0"
| "fpow10 NaN = NaN"

text \<open>
  \<open>torch.clamp(x, lo, hi)\<close> with number bounds is \<open>min(max(x, lo), hi)\<close>; a NaN stays a
  NaN, and where \<open>lo > hi\<close> every entry becomes \<open>hi\<close>.
\<close>

fun fclamp :: "fl \<Rightarrow> real \<Rightarrow> real \<Rightarrow> fl" where
  "fclamp (Fin a) lo hi = Fin (min (max a lo) hi)"
| "fclamp PInf lo hi = Fin hi"
| "fclamp NInf lo hi = Fin (min lo hi)"
| "fclamp NaN lo hi = NaN"

subsection \<open>Mel scale: \<open>to_mel\<close> and \<open>to_hz\<close>\<close>

definition to_mel :: "fl \<Rightarrow> fl" where
  "to_mel hz = fmul (Fin 2595) (flog10 (fadd (Fin 1) (fdiv hz (Fin 700))))"

definition to_hz :: "fl \<Rightarrow> fl" where
  "to_hz mel = fmul (Fin 700) (fsub (fpow10 (fdiv mel (Fin 2595))) (Fin 1))"

subsection \<open>Errors and diagnostics\<close>

datatype error =
    Invalid_filter_type string
      \<comment> \<open>\<open>ValueError('Invalid filter type {}'.format(type))\<close> of \<open>make_filters\<close>\<close>
  | Negative_num int
      \<comment> \<open>the \<open>ValueError\<close> of \<open>np.linspace\<close> for a negative number of samples\<close>
  | Shape_mismatch
      \<comment> \<open>the \<open>RuntimeError\<close> of torch: operands that do not broadcast, or a \<open>view\<close>
          whose shape does not fit the number of elements\<close>

datatype diag = Force_odd int int
  \<comment> \<open>\<open>print('Received kernel_size={}, force kernel_size={} so filters are odd')\<close>\<close>

subsection \<open>Library operations (numpy and torch)\<close>

text \<open>
  \<open>np.hamming(M)\<close>: empty below one sample, \<open>[1.]\<close> for one, and otherwise the \<open>M\<close>
  samples \<open>0.54 - 0.46 cos(2 pi n / (M - 1))\<close>, \<open>n = 0 .. M - 1\<close>.
\<close>

definition hamming :: "int \<Rightarrow> fl list" where
  "hamming M =
     (if M < 1 then []
      else if M = 1 then [Fin 1]
      else map (\<lambda>n. Fin (0.54 - 0.46 * cos (2 * pi * real_of_int n / real_of_int (M - 1))))
             [0..M - 1])"

text \<open>The Python slice \<open>xs[:c]\<close>; a negative \<open>c\<close> counts from the end.\<close>

definition slice_to :: "'a list \<Rightarrow> int \<Rightarrow> 'a list" where
  "slice_to xs c = (if 0 \<le> c then take (nat c) xs else take (length xs - nat (- c)) xs)"

text \<open>\<open>torch.arange(a, b)\<close> on integral bounds: \<open>a, a + 1, ...\<close> below \<open>b\<close>.\<close>

definition arange :: "int \<Rightarrow> int \<Rightarrow> fl list" where
  "arange a b = map (\<lambda>t. Fin (real_of_int t)) [a..b - 1]"

text \<open>
  \<open>np.linspace(start, stop, num)\<close>: \<open>num\<close> samples \<open>start + i * step\<close> with
  \<open>step = (stop - start) / (num - 1)\<close>, the last one set to \<open>stop\<close> itself; a single
  sample is \<open>0 * (stop - start) + start\<close>; a negative \<open>num\<close> is a \<open>ValueError\<close>.
\<close>

definition linspace :: "fl \<Rightarrow> fl \<Rightarrow> int \<Rightarrow> error + fl list" where
  "linspace start stop num =
     (if num < 0 then Inl (Negative_num num)
      else
        let dv = num - 1;
            delta = fsub stop start;
            step = (if 0 < dv then fdiv delta (Fin (real_of_int dv)) else delta);
            y = map (\<lambda>i. fadd (fmul (Fin (real_of_int i)) step) start) [0..num - 1]
        in Inr (if 1 < num then y[length y - 1 := stop] else y))"

text \<open>\<open>np.diff(a)\<close> is \<open>a[1:] - a[:-1]\<close>.\<close>

definition diff :: "fl list \<Rightarrow> fl list" where
  "diff a = map2 fsub (tl a) (butlast a)"

text \<open>
  Broadcasting of two one-dimensional operands (or of two tensors along one axis):
  equal sizes pair up, a size of one is repeated, anything else is an error.
\<close>

definition bcast :: "('a \<Rightarrow> 'b \<Rightarrow> 'c) \<Rightarrow> 'a list \<Rightarrow> 'b list \<Rightarrow> error + 'c list" where
  "bcast f xs ys =
     (if length xs = length ys then Inr (map2 f xs ys)
      else if length xs = 1 then Inr (map (f (hd xs)) ys)
      else if length ys = 1 then Inr (map (\<lambda>x. f x (hd ys)) xs)
      else Inl Shape_mismatch)"

text \<open>
  \<open>t.view(a, 1, k)\<close> of a two-dimensional tensor given by its rows: the entries in
  row-major order are regrouped into \<open>a\<close> kernels of one channel of \<open>k\<close> samples.  A size
  of \<open>-1\<close> is inferred from the number of entries; the sizes must account for every
  entry.
\<close>

definition chunks :: "nat \<Rightarrow> nat \<Rightarrow> 'a list \<Rightarrow> 'a list list list" where
  "chunks a k xs = map (\<lambda>i. [take k (drop (i * k) xs)]) [0..<a]"

definition view3 :: "fl list list \<Rightarrow> int \<Rightarrow> int \<Rightarrow> error + fl list list list" where
  "view3 rows a k =
     (let xs = concat rows; numel = int (length xs) in
      if a < - 1 \<or> k < - 1 \<or> (a = - 1 \<and> k = - 1) then Inl Shape_mismatch
      else if a = - 1 then
        (if 0 < k \<and> numel mod k = 0 then Inr (chunks (nat (numel div k)) (nat k) xs)
         else Inl Shape_mismatch)
      else if k = - 1 then
        (if 0 < a \<and> numel mod a = 0 then Inr (chunks (nat a) (nat (numel div a)) xs)
         else Inl Shape_mismatch)
      else if numel = a * k then Inr (chunks (nat a) (nat k) xs)
      else Inl Shape_mismatch)"

subsection \<open>The filterbank object\<close>

text \<open>
  The learnable parameters \<^verbatim>\<open>low_hz_\<close> and \<^verbatim>\<open>band_hz_\<close> are the fields \<open>low_hz_par\<close> and
  \<open>band_hz_par\<close>, the buffers \<^verbatim>\<open>window_\<close> and \<^verbatim>\<open>n_\<close> the fields \<open>window_buf\<close> and
  \<open>n_buf\<close> (a name cannot end in an underscore here).
\<close>

text \<open>
  Modelled from the spec: the base class \<open>EncoderDecoder\<close> (\<open>enc_dec.py\<close>), whose
  constructor receives \<open>stride\<close> and \<open>enc_or_dec\<close>. The spec describes it as pure
  configuration: the stride and a mode tag, \<open>encoder\<close> or \<open>decoder\<close>, neither used in
  the generation of the filters.
\<close>

datatype mode = Encoder | Decoder

record SincParamFB =
  n_filters :: int
  kernel_size :: int
  stride :: int
  enc_or_dec :: mode
  sample_rate :: real
  min_low_hz :: real
  min_band_hz :: real
  cutoff :: int
  low_hz_par :: "fl list"
  band_hz_par :: "fl list"
  window_buf :: "fl list"
  n_buf :: "fl list"

text \<open>
  \<open>_initialize_filters\<close>: the parameters are column tensors, here the lists of their
  entries.
\<close>

definition initialize_filters :: "SincParamFB \<Rightarrow> error + SincParamFB" where
  "initialize_filters self =
     (let low_hz = Fin 30;
          high_hz = Fin (sample_rate self / 2 - (min_low_hz self + min_band_hz self))
      in case linspace (to_mel low_hz) (to_mel high_hz) (n_filters self div 2 + 1) of
           Inl e \<Rightarrow> Inl e
         | Inr mel \<Rightarrow>
             let hz = map to_hz mel
             in Inr (self\<lparr>low_hz_par := slice_to hz (- 1), band_hz_par := diff hz\<rparr>))"

text \<open>
  \<open>__init__\<close>, returning the object (or the error raised) and what was printed.
  Attributes not yet assigned are empty lists.
\<close>

definition init ::
  "int \<Rightarrow> int \<Rightarrow> int \<Rightarrow> mode \<Rightarrow> real \<Rightarrow> real \<Rightarrow> real \<Rightarrow> (error + SincParamFB) \<times> diag list"
where
  "init n_filters0 kernel_size0 stride0 enc_or_dec0 sample_rate0 min_low_hz0 min_band_hz0 =
     (let out = (if kernel_size0 mod 2 = 0
                 then [Force_odd kernel_size0 (kernel_size0 + 1)] else []);
          ks = (if kernel_size0 mod 2 = 0 then kernel_size0 + 1 else kernel_size0);
          self = \<lparr>n_filters = n_filters0, kernel_size = ks, stride = stride0,
                  enc_or_dec = enc_or_dec0, sample_rate = sample_rate0,
                  min_low_hz = min_low_hz0, min_band_hz = min_band_hz0,
                  cutoff = ks div 2,
                  low_hz_par = [], band_hz_par = [], window_buf = [], n_buf = []\<rparr>
      in case initialize_filters self of
           Inl e \<Rightarrow> (Inl e, out)
         | Inr self \<Rightarrow>
             (Inr (self\<lparr>window_buf := slice_to (hamming (kernel_size self)) (cutoff self),
                         n_buf := map (\<lambda>t. fmul (Fin (2 * pi)) (fdiv t (Fin (sample_rate self))))
                                 (arange (- cutoff self) 0)\<rparr>),
              out))"

subsection \<open>Generation: \<open>filters\<close> and \<open>make_filters\<close>\<close>

text \<open>The effective frequencies \<open>low\<close> and \<open>high\<close> computed by \<open>filters\<close>.\<close>

definition filters_low :: "SincParamFB \<Rightarrow> fl list" where
  "filters_low self = map (\<lambda>l. fadd (Fin (min_low_hz self)) (fabs l)) (low_hz_par self)"

definition filters_high :: "SincParamFB \<Rightarrow> error + fl list" where
  "filters_high self =
     (case bcast (\<lambda>l b. fadd (fadd l (Fin (min_band_hz self))) (fabs b))
             (filters_low self) (band_hz_par self) of
        Inl e \<Rightarrow> Inl e
      | Inr x \<Rightarrow> Inr (map (\<lambda>v. fclamp v (min_low_hz self) (sample_rate self / 2)) x))"

text \<open>
  \<open>make_filters\<close>. Every tensor operation in it is elementwise, so the model pairs the
  operands by broadcasting (\<open>low\<close> with \<open>high\<close> along the filter axis, the time
  indices with the window along the time axis) and evaluates the source's expression at
  each entry; the \<open>matmul\<close> of the column \<open>low\<close> and the row of time indices is the
  table of products \<open>low[i] * n[j]\<close>.
\<close>

definition band :: "fl list \<Rightarrow> fl list \<Rightarrow> error + fl list" where
  "band low high = bcast (\<lambda>l h. fsub h l) low high"

definition bp_left_cos :: "fl \<Rightarrow> fl \<Rightarrow> fl \<Rightarrow> fl \<Rightarrow> fl" where
  "bp_left_cos l h n w =
     fmul (fdiv (fsub (fsin (fmul h n)) (fsin (fmul l n))) (fdiv n (Fin 2))) w"

definition bp_left_sin :: "fl \<Rightarrow> fl \<Rightarrow> fl \<Rightarrow> fl \<Rightarrow> fl" where
  "bp_left_sin l h n w =
     fmul (fdiv (fsub (fcos (fmul l n)) (fcos (fmul h n))) (fdiv n (Fin 2))) w"

text \<open>\<open>torch.cat([bp_left, bp_center, bp_right], dim=1)\<close>, before the normalisation.\<close>

definition band_pass :: "SincParamFB \<Rightarrow> fl list \<Rightarrow> fl list \<Rightarrow> string \<Rightarrow> error + fl list list" where
  "band_pass self low high ty =
     (case bcast Pair low high of
        Inl e \<Rightarrow> Inl e
      | Inr lh \<Rightarrow>
          if ty = ''cos'' then
            (case bcast Pair (n_buf self) (window_buf self) of
               Inl e \<Rightarrow> Inl e
             | Inr nw \<Rightarrow>
                 Inr (map (\<lambda>(l, h).
                        let bp_left = map (\<lambda>(n, w). bp_left_cos l h n w) nw;
                            bp_center = fmul (Fin 2) (fsub h l);
                            bp_right = rev bp_left
                        in bp_left @ [bp_center] @ bp_right) lh))
          else if ty = ''sin'' then
            (case bcast Pair (n_buf self) (window_buf self) of
               Inl e \<Rightarrow> Inl e
             | Inr nw \<Rightarrow>
                 Inr (map (\<lambda>(l, h).
                        let bp_left = map (\<lambda>(n, w). bp_left_sin l h n w) nw;
                            bp_center = Fin 0;
                            bp_right = map fneg (rev bp_left)
                        in bp_left @ [bp_center] @ bp_right) lh))
          else Inl (Invalid_filter_type ty))"

definition make_filters ::
  "SincParamFB \<Rightarrow> fl list \<Rightarrow> fl list \<Rightarrow> string \<Rightarrow> error + fl list list list"
where
  "make_filters self low high ty =
     (case band low high of
        Inl e \<Rightarrow> Inl e
      | Inr bd \<Rightarrow>
          (case band_pass self low high ty of
             Inl e \<Rightarrow> Inl e
           | Inr bp \<Rightarrow>
               view3 (map2 (\<lambda>b row. map (\<lambda>x. fdiv x (fmul (Fin 2) b)) row) bd bp)
                 (n_filters self div 2) (kernel_size self)))"

definition filters :: "SincParamFB \<Rightarrow> error + fl list list list" where
  "filters self =
     (case filters_high self of
        Inl e \<Rightarrow> Inl e
      | Inr high \<Rightarrow>
          (case make_filters self (filters_low self) high ''cos'' of
             Inl e \<Rightarrow> Inl e
           | Inr cos_filters \<Rightarrow>
               (case make_filters self (filters_low self) high ''sin'' of
                  Inl e \<Rightarrow> Inl e
                | Inr sin_filters \<Rightarrow> Inr (cos_filters @ sin_filters))))"


section \<open>Properties\<close>

lemma to_mel_Fin:
  "- 700 < f \<Longrightarrow> to_mel (Fin f) = Fin (2595 * log 10 (1 + f / 700))"
  by (simp add: to_mel_def)

lemma to_hz_Fin: "to_hz (Fin m) = Fin (700 * (10 powr (m / 2595) - 1))"
  by (simp add: to_hz_def fsub_def)

lemma to_hz_to_mel: "- 700 < f \<Longrightarrow> to_hz (to_mel (Fin f)) = Fin f"
  by (simp add: to_mel_Fin to_hz_Fin)

lemma to_mel_to_hz: "to_mel (to_hz (Fin m)) = Fin m"
proof -
  let ?p = "(10::real) powr (m / 2595)"
  have pos: "0 < ?p" by simp
  have "1 + 700 * (p - 1) / 700 = p" for p :: real by (simp add: field_simps)
  then have arg: "1 + 700 * (?p - 1) / 700 = ?p" .
  have "to_mel (to_hz (Fin m)) = fmul (Fin 2595) (flog10 (Fin (1 + 700 * (?p - 1) / 700)))"
    by (simp only: to_hz_Fin to_mel_def fdiv.simps fadd.simps) simp
  also have "\<dots> = fmul (Fin 2595) (flog10 (Fin ?p))"
    by (simp only: arg)
  also have "\<dots> = Fin (2595 * log 10 ?p)"
    using pos by simp
  also have "\<dots> = Fin m"
    by simp
  finally show ?thesis .
qed

text \<open>
  C7. The mel conversions undo each other: for every frequency \<open>f > 0\<close>,
  \<open>to_hz (to_mel f)\<close> is \<open>f\<close>, and \<open>to_mel (to_hz m)\<close> is \<open>m\<close> for every mel value.
  In exact real arithmetic the round trip is an equality; \<open>to_mel\<close> and \<open>to_hz\<close> are the
  stated formulas with the constants 2595 and 700.
\<close>

theorem mel_round_trip:
  "0 < f \<Longrightarrow>
     to_mel (Fin f) = Fin (2595 * log 10 (1 + f / 700)) \<and>
     to_hz (Fin m) = Fin (700 * (10 powr (m / 2595) - 1)) \<and>
     to_hz (to_mel (Fin f)) = Fin f \<and>
     to_mel (to_hz (Fin m)) = Fin m"
  using to_mel_Fin [of f] to_hz_Fin [of m] to_hz_to_mel [of f] to_mel_to_hz [of m]
  by simp

theorem mel_round_trip_witness:
  "(0::real) < 440 \<and> to_hz (to_mel (Fin 440)) = Fin 440 \<and> to_mel (to_hz (Fin 1000)) = Fin 1000"
proof -
  have h: "(0::real) < 440" by simp
  from mel_round_trip [OF h, of 1000] h show ?thesis by blast
qed

subsection \<open>Broadcasting and views\<close>

lemma bcast_same: "length xs = length ys \<Longrightarrow> bcast f xs ys = Inr (map2 f xs ys)"
  by (simp add: bcast_def)

lemma length_concat_uniform:
  "\<forall>r\<in>set rows. length r = k \<Longrightarrow> length (concat rows) = length rows * k"
  by (induction rows) auto

lemma take_drop_concat_uniform:
  "\<forall>r\<in>set rows. length r = k \<Longrightarrow> i < length rows \<Longrightarrow>
     take k (drop (i * k) (concat rows)) = rows ! i"
proof (induction rows arbitrary: i)
  case Nil
  then show ?case by simp
next
  case (Cons r rows)
  show ?case
  proof (cases i)
    case 0
    with Cons.prems show ?thesis by simp
  next
    case (Suc j)
    with Cons.prems have "j < length rows" by simp
    with Cons have "take k (drop (j * k) (concat rows)) = rows ! j" by simp
    with Suc Cons.prems show ?thesis by (simp add: add.commute)
  qed
qed

lemma chunks_rows:
  assumes "\<forall>r\<in>set rows. length r = k"
  shows "chunks (length rows) k (concat rows) = map (\<lambda>r. [r]) rows"
  by (rule nth_equalityI) (simp_all add: chunks_def take_drop_concat_uniform [OF assms])

lemma view3_rows:
  assumes "\<forall>r\<in>set rows. length r = nat k" and "int (length rows) = a" and "0 \<le> k"
  shows "view3 rows a k = Inr (map (\<lambda>r. [r]) rows)"
proof -
  have "int (length (concat rows)) = a * k"
    using assms by (simp add: length_concat_uniform [OF assms(1)])
  moreover have "nat a = length rows" using assms(2) by auto
  ultimately show ?thesis
    using assms chunks_rows [OF assms(1)] by (auto simp: view3_def Let_def)
qed

subsection \<open>The constructor and the library operations\<close>

lemma linspace_Inr:
  "0 \<le> num \<Longrightarrow> \<exists>mel. linspace a b num = Inr mel \<and> length mel = nat num"
  by (simp add: linspace_def Let_def)

lemma linspace_Inl:
  "linspace a b num = Inl e \<Longrightarrow> num < 0 \<and> e = Negative_num num"
  by (simp add: linspace_def Let_def split: if_splits)

lemma length_diff: "length (diff a) = length a - 1"
  by (simp add: diff_def)

lemma nth_diff: "Suc i < length a \<Longrightarrow> diff a ! i = fsub (a ! Suc i) (a ! i)"
  by (simp add: diff_def nth_tl nth_butlast)

lemma slice_to_minus_one: "slice_to xs (- 1) = butlast xs"
  by (simp add: slice_to_def butlast_conv_take)

lemma init_out:
  "snd (init nf k st md sr mlo mbd) = (if k mod 2 = 0 then [Force_odd k (k + 1)] else [])"
  by (simp add: init_def Let_def split: sum.splits)

lemma init_Inl:
  "fst (init nf k st md sr mlo mbd) = Inl e \<Longrightarrow> nf div 2 + 1 < 0 \<and> e = Negative_num (nf div 2 + 1)"
  by (auto simp: init_def initialize_filters_def Let_def split: sum.splits dest: linspace_Inl)

lemma init_Inr:
  assumes "fst (init nf k st md sr mlo mbd) = Inr s0"
  shows "n_filters s0 = nf"
    and "kernel_size s0 = (if k mod 2 = 0 then k + 1 else k)"
    and "cutoff s0 = kernel_size s0 div 2"
    and "sample_rate s0 = sr"
    and "min_low_hz s0 = mlo"
    and "min_band_hz s0 = mbd"
    and "stride s0 = st"
    and "enc_or_dec s0 = md"
    and "window_buf s0 = slice_to (hamming (kernel_size s0)) (cutoff s0)"
    and "n_buf s0 = map (\<lambda>t. fmul (Fin (2 * pi)) (fdiv t (Fin sr))) (arange (- cutoff s0) 0)"
    and "\<exists>mel. linspace (to_mel (Fin 30)) (to_mel (Fin (sr / 2 - (mlo + mbd)))) (nf div 2 + 1) = Inr mel \<and>
           low_hz_par s0 = butlast (map to_hz mel) \<and> band_hz_par s0 = diff (map to_hz mel)"
  using assms
  by (auto simp: init_def initialize_filters_def Let_def slice_to_minus_one split: sum.splits)

lemma init_succeeds:
  assumes "0 \<le> nf div 2 + 1"
  shows "\<exists>s0. fst (init nf k st md sr mlo mbd) = Inr s0"
proof (cases "fst (init nf k st md sr mlo mbd)")
  case (Inl e)
  from init_Inl [OF this] assms show ?thesis by simp
next
  case (Inr s0)
  then show ?thesis by blast
qed

lemma length_hamming: "0 \<le> M \<Longrightarrow> length (hamming M) = nat M"
  by (simp add: hamming_def)

lemma nth_hamming:
  "2 \<le> M \<Longrightarrow> j < nat M \<Longrightarrow>
     hamming M ! j = Fin (0.54 - 0.46 * cos (2 * pi * real j / real_of_int (M - 1)))"
  by (simp add: hamming_def)

lemma length_arange: "length (arange a b) = nat (b - a)"
  by (simp add: arange_def)

lemma nth_arange: "j < nat (b - a) \<Longrightarrow> arange a b ! j = Fin (real_of_int (a + int j))"
  by (simp add: arange_def)

subsection \<open>The buffers and the rows of a bank\<close>

lemma init_odd:
  assumes "fst (init nf k st md sr mlo mbd) = Inr s0"
  shows "odd (kernel_size s0)" and "cutoff s0 = (kernel_size s0 - 1) div 2"
    and "kernel_size s0 = 2 * cutoff s0 + 1"
proof -
  have ks: "kernel_size s0 = (if k mod 2 = 0 then k + 1 else k)" by (rule init_Inr(2) [OF assms])
  have c: "cutoff s0 = kernel_size s0 div 2" by (rule init_Inr(3) [OF assms])
  show odd: "odd (kernel_size s0)"
    unfolding ks by presburger
  from odd show "cutoff s0 = (kernel_size s0 - 1) div 2"
    unfolding c by presburger
  from odd show "kernel_size s0 = 2 * cutoff s0 + 1"
    unfolding c by presburger
qed

lemma init_buffers:
  assumes i: "fst (init nf k st md sr mlo mbd) = Inr s0" and k: "0 < k"
  shows "0 \<le> cutoff s0"
    and "length (n_buf s0) = nat (cutoff s0)"
    and "length (window_buf s0) = nat (cutoff s0)"
    and "j < nat (cutoff s0) \<Longrightarrow>
           window_buf s0 ! j =
             Fin (0.54 - 0.46 * cos (2 * pi * real j / real_of_int (kernel_size s0 - 1)))"
    and "j < nat (cutoff s0) \<Longrightarrow>
           n_buf s0 ! j = fmul (Fin (2 * pi)) (fdiv (Fin (real_of_int (int j - cutoff s0))) (Fin sr))"
proof -
  have ks: "0 < kernel_size s0" using init_Inr(2) [OF i] k by (simp split: if_splits)
  have c: "kernel_size s0 = 2 * cutoff s0 + 1" by (rule init_odd(3) [OF i])
  show c0: "0 \<le> cutoff s0" using ks c by simp
  show "length (n_buf s0) = nat (cutoff s0)"
    by (simp add: init_Inr(10) [OF i] length_arange)
  have w: "window_buf s0 = take (nat (cutoff s0)) (hamming (kernel_size s0))"
    using c0 by (simp add: init_Inr(9) [OF i] slice_to_def)
  show "length (window_buf s0) = nat (cutoff s0)"
    using ks c c0 by (simp add: w length_hamming)
  show "window_buf s0 ! j =
          Fin (0.54 - 0.46 * cos (2 * pi * real j / real_of_int (kernel_size s0 - 1)))"
    if "j < nat (cutoff s0)"
  proof -
    from that have "2 \<le> kernel_size s0" and "j < nat (kernel_size s0)" using c by auto
    then show ?thesis using that by (simp add: w nth_hamming)
  qed
  show "n_buf s0 ! j = fmul (Fin (2 * pi)) (fdiv (Fin (real_of_int (int j - cutoff s0))) (Fin sr))"
    if "j < nat (cutoff s0)"
    using that by (simp add: init_Inr(10) [OF i] length_arange nth_arange add.commute)
qed

lemma band_same: "length lo = length hi \<Longrightarrow> band lo hi = Inr (map2 (\<lambda>l h. fsub h l) lo hi)"
  by (simp add: band_def bcast_same)

lemma band_pass_cos:
  assumes "length lo = length hi" and "length (n_buf s) = length (window_buf s)"
  shows "band_pass s lo hi ''cos'' =
           Inr (map (\<lambda>(l, h).
                  map (\<lambda>(n, w). bp_left_cos l h n w) (zip (n_buf s) (window_buf s)) @
                  [fmul (Fin 2) (fsub h l)] @
                  rev (map (\<lambda>(n, w). bp_left_cos l h n w) (zip (n_buf s) (window_buf s))))
                (zip lo hi))"
  using assms by (simp add: band_pass_def bcast_same Let_def)

lemma band_pass_sin:
  assumes "length lo = length hi" and "length (n_buf s) = length (window_buf s)"
  shows "band_pass s lo hi ''sin'' =
           Inr (map (\<lambda>(l, h).
                  map (\<lambda>(n, w). bp_left_sin l h n w) (zip (n_buf s) (window_buf s)) @
                  [Fin 0] @
                  map fneg (rev (map (\<lambda>(n, w). bp_left_sin l h n w) (zip (n_buf s) (window_buf s)))))
                (zip lo hi))"
  using assms by (simp add: band_pass_def bcast_same Let_def)

lemma make_filters_rows:
  assumes len: "length lo = length hi"
    and bp: "band_pass s lo hi ty = Inr bp"
    and lbp: "length bp = length lo"
    and rows: "\<forall>r\<in>set bp. length r = nat (kernel_size s)"
    and nf: "n_filters s div 2 = int (length lo)"
    and ks: "0 \<le> kernel_size s"
  shows "make_filters s lo hi ty =
           Inr (map (\<lambda>r. [r])
                  (map2 (\<lambda>b row. map (\<lambda>x. fdiv x (fmul (Fin 2) b)) row)
                     (map2 (\<lambda>l h. fsub h l) lo hi) bp))"
proof -
  let ?rows = "map2 (\<lambda>b row. map (\<lambda>x. fdiv x (fmul (Fin 2) b)) row)
                 (map2 (\<lambda>l h. fsub h l) lo hi) bp"
  have "\<forall>r\<in>set ?rows. length r = nat (kernel_size s)"
    using rows by (auto dest!: set_zip_rightD)
  moreover have "int (length ?rows) = n_filters s div 2"
    using len lbp nf by simp
  ultimately have "view3 ?rows (n_filters s div 2) (kernel_size s) = Inr (map (\<lambda>r. [r]) ?rows)"
    using ks by (rule view3_rows)
  then show ?thesis
    by (simp add: make_filters_def band_same [OF len] bp)
qed

subsection \<open>Generation on a well-shaped object\<close>

lemma length_filters_low: "length (filters_low s) = length (low_hz_par s)"
  by (simp add: filters_low_def)

lemma filters_high_same:
  assumes "length (low_hz_par s) = length (band_hz_par s)"
  shows "filters_high s =
           Inr (map2 (\<lambda>l b. fclamp (fadd (fadd l (Fin (min_band_hz s))) (fabs b))
                              (min_low_hz s) (sample_rate s / 2))
                  (filters_low s) (band_hz_par s))"
  using assms
  by (simp add: filters_high_def bcast_same length_filters_low
      map_zip_map map_zip_map2 split_def zip_map_map)

lemma filters_wf:
  assumes lp: "length (low_hz_par s) = m" and bp: "length (band_hz_par s) = m"
    and nb: "length (n_buf s) = c" and wb: "length (window_buf s) = c"
    and nf: "n_filters s div 2 = int m" and ks: "kernel_size s = 2 * int c + 1"
  obtains hs bpc bps cs ss where
    "filters_high s = Inr hs" and "length hs = m"
    and "band_pass s (filters_low s) hs ''cos'' = Inr bpc"
    and "band_pass s (filters_low s) hs ''sin'' = Inr bps"
    and "make_filters s (filters_low s) hs ''cos'' = Inr cs"
    and "make_filters s (filters_low s) hs ''sin'' = Inr ss"
    and "filters s = Inr (cs @ ss)"
    and "length bpc = m" and "length bps = m" and "length cs = m" and "length ss = m"
    and "\<And>i. i < m \<Longrightarrow>
           bpc ! i =
             map (\<lambda>(n, w). bp_left_cos (filters_low s ! i) (hs ! i) n w)
               (zip (n_buf s) (window_buf s)) @
             [fmul (Fin 2) (fsub (hs ! i) (filters_low s ! i))] @
             rev (map (\<lambda>(n, w). bp_left_cos (filters_low s ! i) (hs ! i) n w)
                    (zip (n_buf s) (window_buf s)))"
    and "\<And>i. i < m \<Longrightarrow>
           bps ! i =
             map (\<lambda>(n, w). bp_left_sin (filters_low s ! i) (hs ! i) n w)
               (zip (n_buf s) (window_buf s)) @
             [Fin 0] @
             map fneg (rev (map (\<lambda>(n, w). bp_left_sin (filters_low s ! i) (hs ! i) n w)
                    (zip (n_buf s) (window_buf s))))"
    and "\<And>i. i < m \<Longrightarrow>
           cs ! i = [map (\<lambda>x. fdiv x (fmul (Fin 2) (fsub (hs ! i) (filters_low s ! i)))) (bpc ! i)]"
    and "\<And>i. i < m \<Longrightarrow>
           ss ! i = [map (\<lambda>x. fdiv x (fmul (Fin 2) (fsub (hs ! i) (filters_low s ! i)))) (bps ! i)]"
proof -
  let ?lo = "filters_low s"
  let ?hs = "map2 (\<lambda>l b. fclamp (fadd (fadd l (Fin (min_band_hz s))) (fabs b))
                              (min_low_hz s) (sample_rate s / 2)) ?lo (band_hz_par s)"
  let ?nw = "zip (n_buf s) (window_buf s)"
  let ?bpc = "map (\<lambda>(l, h). map (\<lambda>(n, w). bp_left_cos l h n w) ?nw @ [fmul (Fin 2) (fsub h l)] @
                 rev (map (\<lambda>(n, w). bp_left_cos l h n w) ?nw)) (zip ?lo ?hs)"
  let ?bps = "map (\<lambda>(l, h). map (\<lambda>(n, w). bp_left_sin l h n w) ?nw @ [Fin 0] @
                 map fneg (rev (map (\<lambda>(n, w). bp_left_sin l h n w) ?nw))) (zip ?lo ?hs)"
  let ?norm = "\<lambda>bp. map2 (\<lambda>b row. map (\<lambda>x. fdiv x (fmul (Fin 2) b)) row)
                     (map2 (\<lambda>l h. fsub h l) ?lo ?hs) bp"
  have llo: "length ?lo = m" by (simp add: length_filters_low lp)
  have lhs: "length ?hs = m" by (simp add: llo bp)
  have len: "length ?lo = length ?hs" by (simp only: llo lhs)
  have nw: "length (n_buf s) = length (window_buf s)" by (simp add: nb wb)
  have lnw: "length ?nw = c" by (simp add: nb wb)
  have hs: "filters_high s = Inr ?hs" by (rule filters_high_same) (simp add: lp bp)
  have bpc: "band_pass s ?lo ?hs ''cos'' = Inr ?bpc" by (rule band_pass_cos [OF len nw])
  have bps: "band_pass s ?lo ?hs ''sin'' = Inr ?bps" by (rule band_pass_sin [OF len nw])
  have lbpc: "length ?bpc = m" and lbps: "length ?bps = m" using llo lhs by simp_all
  have rc: "\<forall>r\<in>set ?bpc. length r = nat (kernel_size s)"
    using lnw by (auto simp: ks)
  have rs: "\<forall>r\<in>set ?bps. length r = nat (kernel_size s)"
    using lnw by (auto simp: ks)
  have nf': "n_filters s div 2 = int (length ?lo)" by (simp add: nf llo)
  have k0: "0 \<le> kernel_size s" by (simp add: ks)
  have cs: "make_filters s ?lo ?hs ''cos'' = Inr (map (\<lambda>r. [r]) (?norm ?bpc))"
    using lbpc llo by (intro make_filters_rows [OF len bpc _ rc nf' k0]) simp
  have ss: "make_filters s ?lo ?hs ''sin'' = Inr (map (\<lambda>r. [r]) (?norm ?bps))"
    using lbps llo by (intro make_filters_rows [OF len bps _ rs nf' k0]) simp
  have f: "filters s = Inr (map (\<lambda>r. [r]) (?norm ?bpc) @ map (\<lambda>r. [r]) (?norm ?bps))"
    by (simp add: filters_def hs cs ss)
  show thesis
  proof (rule that [OF hs lhs bpc bps cs ss f lbpc lbps])
    show "length (map (\<lambda>r. [r]) (?norm ?bpc)) = m" using llo lhs by simp
    show "length (map (\<lambda>r. [r]) (?norm ?bps)) = m" using llo lhs by simp
    show "?bpc ! i = map (\<lambda>(n, w). bp_left_cos (?lo ! i) (?hs ! i) n w) ?nw @
             [fmul (Fin 2) (fsub (?hs ! i) (?lo ! i))] @
             rev (map (\<lambda>(n, w). bp_left_cos (?lo ! i) (?hs ! i) n w) ?nw)" if "i < m" for i
      using that llo lhs by simp
    show "?bps ! i = map (\<lambda>(n, w). bp_left_sin (?lo ! i) (?hs ! i) n w) ?nw @
             [Fin 0] @
             map fneg (rev (map (\<lambda>(n, w). bp_left_sin (?lo ! i) (?hs ! i) n w) ?nw))" if "i < m" for i
      using that llo lhs by simp
    show "map (\<lambda>r. [r]) (?norm ?bpc) ! i =
            [map (\<lambda>x. fdiv x (fmul (Fin 2) (fsub (?hs ! i) (?lo ! i)))) (?bpc ! i)]" if "i < m" for i
      using that llo lhs by simp
    show "map (\<lambda>r. [r]) (?norm ?bps) ! i =
            [map (\<lambda>x. fdiv x (fmul (Fin 2) (fsub (?hs ! i) (?lo ! i)))) (?bps ! i)]" if "i < m" for i
      using that llo lhs by simp
  qed
qed

subsection \<open>Errors of generation and of construction\<close>

lemma bcast_Inl:
  "bcast f xs ys = Inl e \<longleftrightarrow>
     length xs \<noteq> length ys \<and> length xs \<noteq> 1 \<and> length ys \<noteq> 1 \<and> e = Shape_mismatch"
  by (auto simp: bcast_def)

lemma bcast_Inr_ex:
  "length xs = length ys \<or> length xs = 1 \<or> length ys = 1 \<Longrightarrow> \<exists>zs. bcast f xs ys = Inr zs"
  by (auto simp: bcast_def)

lemma view3_Inl: "view3 rows a k = Inl e \<Longrightarrow> e = Shape_mismatch"
  by (auto simp: view3_def Let_def split: if_splits)

lemma band_pass_Inl:
  "band_pass s lo hi ty = Inl e \<Longrightarrow>
     e = Shape_mismatch \<or> (ty \<noteq> ''cos'' \<and> ty \<noteq> ''sin'' \<and> e = Invalid_filter_type ty)"
  by (auto simp: band_pass_def bcast_Inl split: sum.splits if_splits)

lemma make_filters_Inl:
  "make_filters s lo hi ty = Inl e \<Longrightarrow>
     e = Shape_mismatch \<or> (ty \<noteq> ''cos'' \<and> ty \<noteq> ''sin'' \<and> e = Invalid_filter_type ty)"
  by (auto simp: make_filters_def band_def bcast_Inl split: sum.splits
      dest: band_pass_Inl view3_Inl)

lemma filters_Inl: "filters s = Inl e \<Longrightarrow> e = Shape_mismatch"
  by (auto simp: filters_def filters_high_def bcast_Inl split: sum.splits
      dest: make_filters_Inl)

lemma make_filters_invalid:
  assumes "ty \<noteq> ''cos''" and "ty \<noteq> ''sin''"
  shows "make_filters s lo hi ty =
           (if length lo = length hi \<or> length lo = 1 \<or> length hi = 1
            then Inl (Invalid_filter_type ty) else Inl Shape_mismatch)"
  using assms
  by (auto simp: make_filters_def band_def band_pass_def bcast_def split: sum.splits)

text \<open>
  C8. \<open>make_filters\<close> raises for every filter type other than \<open>cos\<close> and \<open>sin\<close>, and
  the error is the invalid-type \<open>ValueError\<close> whenever \<open>low\<close> and \<open>high\<close> have the same
  number of entries (the difference \<open>high - low\<close> is computed before the type is
  looked at). \<open>filters\<close> calls it with \<open>cos\<close> and \<open>sin\<close> only and never raises that
  error, whatever the object.
\<close>

theorem invalid_filter_type:
  "(ty \<noteq> ''cos'' \<longrightarrow> ty \<noteq> ''sin'' \<longrightarrow>
      (\<exists>e. make_filters s lo hi ty = Inl e) \<and>
      (length lo = length hi \<longrightarrow> make_filters s lo hi ty = Inl (Invalid_filter_type ty))) \<and>
   filters s' \<noteq> Inl (Invalid_filter_type t)"
  using make_filters_invalid [of ty s lo hi] filters_Inl [of s' "Invalid_filter_type t"]
  by auto

theorem invalid_filter_type_witness:
  "''tan'' \<noteq> ''cos'' \<and> ''tan'' \<noteq> ''sin'' \<and> length [Fin 50] = length [Fin 100] \<and>
   make_filters
     \<lparr>n_filters = 2, kernel_size = 3, stride = 1, enc_or_dec = Encoder, sample_rate = 16000,
      min_low_hz = 50, min_band_hz = 50, cutoff = 1, low_hz_par = [Fin 0], band_hz_par = [Fin 0],
      window_buf = [Fin 0.08], n_buf = [Fin (- 2 * pi / 16000)]\<rparr>
     [Fin 50] [Fin 100] ''tan'' = Inl (Invalid_filter_type ''tan'')"
  using invalid_filter_type [of "''tan''" _ "[Fin 50]" "[Fin 100]"]
  by simp

text \<open>
  C6. For a positive \<open>kernel_size\<close> argument \<open>k\<close>: an even \<open>k\<close> is stored as \<open>k + 1\<close> and
  the diagnostic is printed, an odd \<open>k\<close> is stored as it is and nothing is printed. The
  stored size is odd and \<open>cutoff = (kernel_size - 1) / 2\<close>. Construction succeeds for
  every \<open>n_filters \<ge> -2\<close>, and its only error is the one of \<open>np.linspace\<close> for a
  negative number of points, which does not depend on \<open>k\<close>.
\<close>

theorem kernel_size_forced_odd:
  "0 < k \<Longrightarrow>
     snd (init nf k st md sr mlo mbd) = (if even k then [Force_odd k (k + 1)] else []) \<and>
     (- 2 \<le> nf \<longrightarrow> (\<exists>s0. fst (init nf k st md sr mlo mbd) = Inr s0)) \<and>
     (\<forall>s0. fst (init nf k st md sr mlo mbd) = Inr s0 \<longrightarrow>
        kernel_size s0 = (if even k then k + 1 else k) \<and> odd (kernel_size s0) \<and>
        cutoff s0 = (kernel_size s0 - 1) div 2) \<and>
     (\<forall>e. fst (init nf k st md sr mlo mbd) = Inl e \<longrightarrow>
        e = Negative_num (nf div 2 + 1) \<and> nf < - 2)"
proof (intro conjI allI impI)
  show "snd (init nf k st md sr mlo mbd) = (if even k then [Force_odd k (k + 1)] else [])"
    by (simp add: init_out even_iff_mod_2_eq_zero)
  show "\<exists>s0. fst (init nf k st md sr mlo mbd) = Inr s0" if "- 2 \<le> nf"
  proof -
    from that have "0 \<le> nf div 2 + 1" by presburger
    then show ?thesis by (rule init_succeeds)
  qed
next
  fix s0 assume i: "fst (init nf k st md sr mlo mbd) = Inr s0"
  show "kernel_size s0 = (if even k then k + 1 else k)"
    by (simp add: init_Inr(2) [OF i] even_iff_mod_2_eq_zero)
  show "odd (kernel_size s0)" by (rule init_odd(1) [OF i])
  show "cutoff s0 = (kernel_size s0 - 1) div 2" by (rule init_odd(2) [OF i])
next
  fix e assume i: "fst (init nf k st md sr mlo mbd) = Inl e"
  from init_Inl [OF i] show "e = Negative_num (nf div 2 + 1)" by simp
  from init_Inl [OF i] have "nf div 2 + 1 < 0" by simp
  then show "nf < - 2" by presburger
qed

theorem kernel_size_forced_odd_witness:
  "(0::int) < 4 \<and> snd (init 4 4 1 Encoder 16000 50 50) = [Force_odd 4 5] \<and>
   (\<exists>s0. fst (init 4 4 1 Encoder 16000 50 50) = Inr s0 \<and> kernel_size s0 = 5 \<and> cutoff s0 = 2)"
  using kernel_size_forced_odd [of 4 4 1 Encoder 16000 50 50]
  by auto

subsection \<open>Entries of a generated bank\<close>

lemma filters_ex:
  assumes "length (low_hz_par s) = m" and "length (band_hz_par s) = m"
    and "length (n_buf s) = c" and "length (window_buf s) = c"
    and "n_filters s div 2 = int m" and "kernel_size s = 2 * int c + 1"
  shows "\<exists>hs bpc bps cs ss.
           filters_high s = Inr hs \<and> length hs = m \<and>
           band_pass s (filters_low s) hs ''cos'' = Inr bpc \<and>
           band_pass s (filters_low s) hs ''sin'' = Inr bps \<and>
           make_filters s (filters_low s) hs ''cos'' = Inr cs \<and>
           make_filters s (filters_low s) hs ''sin'' = Inr ss \<and>
           filters s = Inr (cs @ ss) \<and>
           length bpc = m \<and> length bps = m \<and> length cs = m \<and> length ss = m"
proof (rule filters_wf [OF assms], goal_cases)
  case (1 hs bpc bps cs ss)
  from 1(1-11) show ?case by blast
qed

lemma filters_nth:
  assumes "length (low_hz_par s) = m" and "length (band_hz_par s) = m"
    and "length (n_buf s) = c" and "length (window_buf s) = c"
    and "n_filters s div 2 = int m" and "kernel_size s = 2 * int c + 1"
    and hs: "filters_high s = Inr hs"
    and i: "i < m"
  shows "band_pass s (filters_low s) hs ''cos'' = Inr bpc \<Longrightarrow>
           bpc ! i =
             map (\<lambda>(n, w). bp_left_cos (filters_low s ! i) (hs ! i) n w)
               (zip (n_buf s) (window_buf s)) @
             [fmul (Fin 2) (fsub (hs ! i) (filters_low s ! i))] @
             rev (map (\<lambda>(n, w). bp_left_cos (filters_low s ! i) (hs ! i) n w)
                    (zip (n_buf s) (window_buf s)))"
    and "band_pass s (filters_low s) hs ''sin'' = Inr bps \<Longrightarrow>
           bps ! i =
             map (\<lambda>(n, w). bp_left_sin (filters_low s ! i) (hs ! i) n w)
               (zip (n_buf s) (window_buf s)) @
             [Fin 0] @
             map fneg (rev (map (\<lambda>(n, w). bp_left_sin (filters_low s ! i) (hs ! i) n w)
                    (zip (n_buf s) (window_buf s))))"
    and "band_pass s (filters_low s) hs ''cos'' = Inr bpc \<Longrightarrow>
         make_filters s (filters_low s) hs ''cos'' = Inr cs \<Longrightarrow>
           cs ! i = [map (\<lambda>x. fdiv x (fmul (Fin 2) (fsub (hs ! i) (filters_low s ! i)))) (bpc ! i)]"
    and "band_pass s (filters_low s) hs ''sin'' = Inr bps \<Longrightarrow>
         make_filters s (filters_low s) hs ''sin'' = Inr ss \<Longrightarrow>
           ss ! i = [map (\<lambda>x. fdiv x (fmul (Fin 2) (fsub (hs ! i) (filters_low s ! i)))) (bps ! i)]"
proof -
  show "bpc ! i =
             map (\<lambda>(n, w). bp_left_cos (filters_low s ! i) (hs ! i) n w)
               (zip (n_buf s) (window_buf s)) @
             [fmul (Fin 2) (fsub (hs ! i) (filters_low s ! i))] @
             rev (map (\<lambda>(n, w). bp_left_cos (filters_low s ! i) (hs ! i) n w)
                    (zip (n_buf s) (window_buf s)))"
    if "band_pass s (filters_low s) hs ''cos'' = Inr bpc"
  proof (rule filters_wf [OF assms(1-6)], goal_cases)
    case (1 hs' bpc' bps' cs' ss')
    from 1(1) hs have "hs' = hs" by simp
    with 1(3) that have "bpc' = bpc" by simp
    with 1(12) [OF i] \<open>hs' = hs\<close> show ?case by simp
  qed
  show "bps ! i =
             map (\<lambda>(n, w). bp_left_sin (filters_low s ! i) (hs ! i) n w)
               (zip (n_buf s) (window_buf s)) @
             [Fin 0] @
             map fneg (rev (map (\<lambda>(n, w). bp_left_sin (filters_low s ! i) (hs ! i) n w)
                    (zip (n_buf s) (window_buf s))))"
    if "band_pass s (filters_low s) hs ''sin'' = Inr bps"
  proof (rule filters_wf [OF assms(1-6)], goal_cases)
    case (1 hs' bpc' bps' cs' ss')
    from 1(1) hs have "hs' = hs" by simp
    with 1(4) that have "bps' = bps" by simp
    with 1(13) [OF i] \<open>hs' = hs\<close> show ?case by simp
  qed
  show "cs ! i = [map (\<lambda>x. fdiv x (fmul (Fin 2) (fsub (hs ! i) (filters_low s ! i)))) (bpc ! i)]"
    if "band_pass s (filters_low s) hs ''cos'' = Inr bpc"
      and "make_filters s (filters_low s) hs ''cos'' = Inr cs"
  proof (rule filters_wf [OF assms(1-6)], goal_cases)
    case (1 hs' bpc' bps' cs' ss')
    from 1(1) hs have h: "hs' = hs" by simp
    with 1(3) that(1) have b: "bpc' = bpc" by simp
    from h 1(5) that(2) have "cs' = cs" by simp
    with 1(14) [OF i] h b show ?case by simp
  qed
  show "ss ! i = [map (\<lambda>x. fdiv x (fmul (Fin 2) (fsub (hs ! i) (filters_low s ! i)))) (bps ! i)]"
    if "band_pass s (filters_low s) hs ''sin'' = Inr bps"
      and "make_filters s (filters_low s) hs ''sin'' = Inr ss"
  proof (rule filters_wf [OF assms(1-6)], goal_cases)
    case (1 hs' bpc' bps' cs' ss')
    from 1(1) hs have h: "hs' = hs" by simp
    with 1(4) that(1) have b: "bps' = bps" by simp
    from h 1(6) that(2) have "ss' = ss" by simp
    with 1(15) [OF i] h b show ?case by simp
  qed
qed

subsection \<open>Shape of a generated bank\<close>

lemma init_params_length:
  assumes i: "fst (init nf k st md sr mlo mbd) = Inr s0" and nf: "0 \<le> nf"
  shows "length (low_hz_par s0) = nat (nf div 2)" and "length (band_hz_par s0) = nat (nf div 2)"
proof -
  from init_Inr(11) [OF i] obtain mel where
    mel: "linspace (to_mel (Fin 30)) (to_mel (Fin (sr / 2 - (mlo + mbd)))) (nf div 2 + 1) = Inr mel"
    and lo: "low_hz_par s0 = butlast (map to_hz mel)" and bd: "band_hz_par s0 = diff (map to_hz mel)"
    by blast
  from nf have n0: "0 \<le> nf div 2" by simp
  then have "0 \<le> nf div 2 + 1" by simp
  from linspace_Inr [OF this, of "to_mel (Fin 30)" "to_mel (Fin (sr / 2 - (mlo + mbd)))"] mel
  have "length mel = nat (nf div 2 + 1)" by simp
  with n0 have "length mel - 1 = nat (nf div 2)" by simp
  then show "length (low_hz_par s0) = nat (nf div 2)" and "length (band_hz_par s0) = nat (nf div 2)"
    by (simp_all add: lo bd length_diff)
qed

lemma init_shape:
  assumes i: "fst (init nf k st md sr mlo mbd) = Inr s0" and k: "0 < k" and nf: "0 \<le> nf"
    and lp: "length lp = nat (nf div 2)" and bp: "length bp = nat (nf div 2)"
  shows "length (low_hz_par (s0\<lparr>low_hz_par := lp, band_hz_par := bp\<rparr>)) = nat (nf div 2)"
    and "length (band_hz_par (s0\<lparr>low_hz_par := lp, band_hz_par := bp\<rparr>)) = nat (nf div 2)"
    and "length (n_buf (s0\<lparr>low_hz_par := lp, band_hz_par := bp\<rparr>)) = nat (cutoff s0)"
    and "length (window_buf (s0\<lparr>low_hz_par := lp, band_hz_par := bp\<rparr>)) = nat (cutoff s0)"
    and "n_filters (s0\<lparr>low_hz_par := lp, band_hz_par := bp\<rparr>) div 2 = int (nat (nf div 2))"
    and "kernel_size (s0\<lparr>low_hz_par := lp, band_hz_par := bp\<rparr>) = 2 * int (nat (cutoff s0)) + 1"
  using lp bp nf init_buffers(1-3) [OF i k] init_odd(3) [OF i] init_Inr(1) [OF i]
  by simp_all

lemma constructed_shape:
  assumes "fst (init nf k st md sr mlo mbd) = Inr s0"
    and "0 < nf" and "even nf" and "0 < k"
    and "length lp = nat (nf div 2)" and "length bp = nat (nf div 2)"
  shows "length (low_hz_par s0) = nat (nf div 2) \<and>
         length (band_hz_par s0) = nat (nf div 2) \<and>
         odd (kernel_size s0) \<and>
         (\<exists>hs cs ss.
            filters_high (s0\<lparr>low_hz_par := lp, band_hz_par := bp\<rparr>) = Inr hs \<and>
            make_filters (s0\<lparr>low_hz_par := lp, band_hz_par := bp\<rparr>)
              (filters_low (s0\<lparr>low_hz_par := lp, band_hz_par := bp\<rparr>)) hs ''cos'' = Inr cs \<and>
            make_filters (s0\<lparr>low_hz_par := lp, band_hz_par := bp\<rparr>)
              (filters_low (s0\<lparr>low_hz_par := lp, band_hz_par := bp\<rparr>)) hs ''sin'' = Inr ss \<and>
            filters (s0\<lparr>low_hz_par := lp, band_hz_par := bp\<rparr>) = Inr (cs @ ss) \<and>
            int (length cs) = nf div 2 \<and> int (length ss) = nf div 2 \<and>
            int (length (cs @ ss)) = nf \<and>
            (\<forall>kernel\<in>set (cs @ ss).
               length kernel = 1 \<and> (\<forall>ch\<in>set kernel. int (length ch) = kernel_size s0)))"
proof -
  let ?s = "s0\<lparr>low_hz_par := lp, band_hz_par := bp\<rparr>"
  let ?m = "nat (nf div 2)" and ?c = "nat (cutoff s0)"
  note i = assms(1)
  have nf0: "0 \<le> nf" using assms(2) by simp
  have ks: "kernel_size s0 = 2 * int ?c + 1"
    using init_shape(6) [OF i assms(4) nf0 assms(5,6)] by simp
  have lnw: "length (zip (n_buf ?s) (window_buf ?s)) = ?c"
    using init_shape(3,4) [OF i assms(4) nf0 assms(5,6)] by simp
  note shape = init_shape [OF i assms(4) nf0 assms(5,6)]
  from filters_ex [OF shape]
  obtain hs bpc bps cs ss where
    hs: "filters_high ?s = Inr hs"
    and bpc: "band_pass ?s (filters_low ?s) hs ''cos'' = Inr bpc"
    and bps: "band_pass ?s (filters_low ?s) hs ''sin'' = Inr bps"
    and cs: "make_filters ?s (filters_low ?s) hs ''cos'' = Inr cs"
    and ss: "make_filters ?s (filters_low ?s) hs ''sin'' = Inr ss"
    and f: "filters ?s = Inr (cs @ ss)"
    and lcs: "length cs = ?m" and lss: "length ss = ?m"
    by blast
  note nth = filters_nth [OF shape hs]
  have m2: "2 * int ?m = nf" using assms(2,3) by auto
  have kc: "length kernel = 1 \<and> (\<forall>ch\<in>set kernel. int (length ch) = kernel_size s0)"
    if "kernel \<in> set cs" for kernel
  proof -
    from that obtain i where "i < ?m" and "kernel = cs ! i"
      by (auto simp: in_set_conv_nth lcs)
    then show ?thesis using nth(3) [OF _ bpc cs, of i] nth(1) [OF _ bpc, of i] lnw ks by simp
  qed
  have ksn: "length kernel = 1 \<and> (\<forall>ch\<in>set kernel. int (length ch) = kernel_size s0)"
    if "kernel \<in> set ss" for kernel
  proof -
    from that obtain i where "i < ?m" and "kernel = ss ! i"
      by (auto simp: in_set_conv_nth lss)
    then show ?thesis using nth(4) [OF _ bps ss, of i] nth(2) [OF _ bps, of i] lnw ks by simp
  qed
  have all: "\<forall>kernel\<in>set (cs @ ss).
               length kernel = 1 \<and> (\<forall>ch\<in>set kernel. int (length ch) = kernel_size s0)"
    using kc ksn by auto
  have len: "int (length cs) = nf div 2" "int (length ss) = nf div 2" "int (length (cs @ ss)) = nf"
    using lcs lss m2 nf0 by simp_all
  show ?thesis
    using init_params_length [OF i nf0] init_odd(1) [OF i] hs cs ss f len all by blast
qed

text \<open>
  C4. For a positive even \<open>n_filters\<close> and a positive \<open>kernel_size\<close>, the constructor
  leaves \<open>n_filters / 2\<close> entries in each parameter, and for every parameter values of
  that shape \<open>filters\<close> returns the \<open>cos\<close> kernels of \<open>make_filters\<close> followed by its
  \<open>sin\<close> kernels: \<open>n_filters / 2\<close> of each, \<open>n_filters\<close> in all, every kernel one
  channel of \<open>kernel_size\<close> samples, \<open>kernel_size\<close> being the stored, odd size.
\<close>

theorem filters_shape:
  assumes "fst (init nf k st md sr mlo mbd) = Inr s0"
    and "0 < nf" and "even nf" and "0 < k"
    and "length lp = nat (nf div 2)" and "length bp = nat (nf div 2)"
  shows "length (low_hz_par s0) = nat (nf div 2) \<and>
         length (band_hz_par s0) = nat (nf div 2) \<and>
         odd (kernel_size s0) \<and>
         (\<exists>hs cs ss.
            filters_high (s0\<lparr>low_hz_par := lp, band_hz_par := bp\<rparr>) = Inr hs \<and>
            make_filters (s0\<lparr>low_hz_par := lp, band_hz_par := bp\<rparr>)
              (filters_low (s0\<lparr>low_hz_par := lp, band_hz_par := bp\<rparr>)) hs ''cos'' = Inr cs \<and>
            make_filters (s0\<lparr>low_hz_par := lp, band_hz_par := bp\<rparr>)
              (filters_low (s0\<lparr>low_hz_par := lp, band_hz_par := bp\<rparr>)) hs ''sin'' = Inr ss \<and>
            filters (s0\<lparr>low_hz_par := lp, band_hz_par := bp\<rparr>) = Inr (cs @ ss) \<and>
            int (length cs) = nf div 2 \<and> int (length ss) = nf div 2 \<and>
            int (length (cs @ ss)) = nf \<and>
            (\<forall>kernel\<in>set (cs @ ss).
               length kernel = 1 \<and> (\<forall>ch\<in>set kernel. int (length ch) = kernel_size s0)))"
  by (rule constructed_shape [OF assms])

theorem filters_shape_witness:
  "\<exists>s0 cs ss.
     fst (init 2 3 1 Encoder 16000 50 50) = Inr s0 \<and> kernel_size s0 = 3 \<and>
     filters (s0\<lparr>low_hz_par := [Fin 0], band_hz_par := [Fin 0]\<rparr>) = Inr (cs @ ss) \<and>
     length cs = 1 \<and> length ss = 1 \<and> length (hd cs) = 1 \<and> length (hd (hd cs)) = 3"
proof -
  obtain s0 where i: "fst (init 2 3 1 Encoder 16000 50 50) = Inr s0"
    using init_succeeds [of 2 3 1 Encoder 16000 50 50] by auto
  have ks: "kernel_size s0 = 3" using init_Inr(2) [OF i] by simp
  from filters_shape [OF i, of "[Fin 0]" "[Fin 0]"]
  obtain cs ss where
    f: "filters (s0\<lparr>low_hz_par := [Fin 0], band_hz_par := [Fin 0]\<rparr>) = Inr (cs @ ss)"
    and l: "int (length cs) = 2 div 2" "int (length ss) = 2 div 2"
    and a: "\<forall>kernel\<in>set (cs @ ss).
               length kernel = 1 \<and> (\<forall>ch\<in>set kernel. int (length ch) = kernel_size s0)"
    by auto
  from l have l1: "length cs = 1" "length ss = 1" by simp_all
  then obtain c where c: "cs = [c]" by (cases cs) auto
  with a have "length c = 1" and "\<forall>ch\<in>set c. int (length ch) = 3" by (simp_all add: ks)
  then have "length (hd c) = 3" by (cases c) auto
  with c \<open>length c = 1\<close> have "length (hd cs) = 1" and "length (hd (hd cs)) = 3" by simp_all
  with i ks f l1 show ?thesis by blast
qed

subsection \<open>Effective frequencies\<close>

lemma filters_low_Fin:
  assumes "low_hz_par s = map Fin ls" and "i < length ls"
  shows "filters_low s ! i = Fin (min_low_hz s + \<bar>ls ! i\<bar>)"
  using assms by (simp add: filters_low_def)

lemma filters_high_Fin:
  assumes lo: "low_hz_par s = map Fin ls" and bd: "band_hz_par s = map Fin bs"
    and len: "length ls = length bs" and i: "i < length ls"
  shows "\<exists>hs. filters_high s = Inr hs \<and> length hs = length ls \<and>
           hs ! i = Fin (min (max (min_low_hz s + \<bar>ls ! i\<bar> + min_band_hz s + \<bar>bs ! i\<bar>)
                                 (min_low_hz s)) (sample_rate s / 2))"
proof -
  have "length (low_hz_par s) = length (band_hz_par s)" by (simp add: lo bd len)
  from filters_high_same [OF this] show ?thesis
    using i len by (simp add: length_filters_low lo bd filters_low_Fin [OF lo])
qed

text \<open>
  C2. For real-valued raw parameters of equal length, on any object: the effective
  low frequency of every filter is \<open>min_low_hz + |low_hz_|\<close>, at least \<open>min_low_hz\<close>;
  the effective high frequency is \<open>min (max (low + min_band_hz + |band_hz_|) min_low_hz)
  (sample_rate / 2)\<close>, at most \<open>sample_rate / 2\<close>, and it is at least \<open>min_low_hz\<close>
  exactly when \<open>min_low_hz \<le> sample_rate / 2\<close>.
\<close>

theorem effective_frequencies:
  assumes "low_hz_par s = map Fin ls" and "band_hz_par s = map Fin bs"
    and "length ls = length bs" and "i < length ls"
  shows "\<exists>lo hi hs.
           filters_low s ! i = Fin lo \<and> filters_high s = Inr hs \<and> hs ! i = Fin hi \<and>
           lo = min_low_hz s + \<bar>ls ! i\<bar> \<and> min_low_hz s \<le> lo \<and>
           hi = min (max (lo + min_band_hz s + \<bar>bs ! i\<bar>) (min_low_hz s)) (sample_rate s / 2) \<and>
           hi \<le> sample_rate s / 2 \<and>
           (min_low_hz s \<le> hi \<longleftrightarrow> min_low_hz s \<le> sample_rate s / 2)"
proof -
  from filters_high_Fin [OF assms] obtain hs where
    hs: "filters_high s = Inr hs"
    and hi: "hs ! i = Fin (min (max (min_low_hz s + \<bar>ls ! i\<bar> + min_band_hz s + \<bar>bs ! i\<bar>)
                                 (min_low_hz s)) (sample_rate s / 2))"
    by blast
  have lo: "filters_low s ! i = Fin (min_low_hz s + \<bar>ls ! i\<bar>)"
    by (rule filters_low_Fin [OF assms(1,4)])
  let ?lo = "min_low_hz s + \<bar>ls ! i\<bar>"
  let ?hi = "min (max (?lo + min_band_hz s + \<bar>bs ! i\<bar>) (min_low_hz s)) (sample_rate s / 2)"
  have "min_low_hz s \<le> ?lo" by simp
  moreover have "?hi \<le> sample_rate s / 2" by (rule min.cobounded2)
  moreover have "min_low_hz s \<le> ?hi \<longleftrightarrow> min_low_hz s \<le> sample_rate s / 2" by auto
  ultimately show ?thesis
    using hs hi lo by (intro exI [of _ ?lo] exI [of _ ?hi] exI [of _ hs]) simp
qed

theorem effective_frequencies_witness:
  "\<exists>s0 hs.
     fst (init 2 3 1 Encoder 16000 50 50) = Inr s0 \<and>
     filters_low (s0\<lparr>low_hz_par := [Fin (- 30)], band_hz_par := [Fin (- 90)]\<rparr>) ! 0 = Fin 80 \<and>
     filters_high (s0\<lparr>low_hz_par := [Fin (- 30)], band_hz_par := [Fin (- 90)]\<rparr>) = Inr hs \<and>
     hs ! 0 = Fin 220 \<and> min_low_hz s0 \<le> 220 \<and> 220 \<le> sample_rate s0 / 2"
proof -
  obtain s0 where i: "fst (init 2 3 1 Encoder 16000 50 50) = Inr s0"
    using init_succeeds [of 2 3 1 Encoder 16000 50 50] by auto
  let ?s = "s0\<lparr>low_hz_par := [Fin (- 30)], band_hz_par := [Fin (- 90)]\<rparr>"
  have "low_hz_par ?s = map Fin [- 30]" and "band_hz_par ?s = map Fin [- 90]"
    and "length [- 30 :: real] = length [- 90 :: real]" and "0 < length [- 30 :: real]"
    by simp_all
  from effective_frequencies [OF this] show ?thesis
    using i init_Inr(4-6) [OF i] by auto
qed

theorem effective_high_counterexample:
  "\<not> isl (fst (init 2 3 1 Encoder 80 50 50)) \<and>
   min_low_hz (projr (fst (init 2 3 1 Encoder 80 50 50))) = 50 \<and>
   filters_high ((projr (fst (init 2 3 1 Encoder 80 50 50)))
                   \<lparr>low_hz_par := [Fin 0], band_hz_par := [Fin 0]\<rparr>) = Inr [Fin 40] \<and>
   \<not> (50 :: real) \<le> 40"
proof -
  obtain s0 where i: "fst (init 2 3 1 Encoder 80 50 50) = Inr s0"
    using init_succeeds [of 2 3 1 Encoder 80 50 50] by auto
  let ?s = "s0\<lparr>low_hz_par := [Fin 0], band_hz_par := [Fin 0]\<rparr>"
  have "length (low_hz_par ?s) = length (band_hz_par ?s)" by simp
  from filters_high_same [OF this] have "filters_high ?s = Inr [Fin 40]"
    using init_Inr(4-6) [OF i] by (simp add: filters_low_def)
  then show ?thesis
    using i init_Inr(5) [OF i] by simp
qed

subsection \<open>Kernels of a constructed object\<close>

lemma row_nth:
  assumes "length L = c"
  shows "j < c \<Longrightarrow> (L @ [x] @ R) ! j = L ! j"
    and "(L @ [x] @ R) ! c = x"
    and "(L @ [x] @ R) ! (c + 1 + j) = R ! j"
    and "length (L @ [x] @ R) = c + 1 + length R"
  using assms by (simp_all add: nth_append)

lemma constructed_kernels:
  fixes s0 lp bp
  defines "s \<equiv> s0\<lparr>low_hz_par := lp, band_hz_par := bp\<rparr>"
  assumes i: "fst (init nf k st md sr mlo mbd) = Inr s0" and k: "0 < k" and nf: "0 \<le> nf"
    and lp: "length lp = nat (nf div 2)" and bp: "length bp = nat (nf div 2)"
    and hs: "filters_high s = Inr hs"
    and idx: "idx < nat (nf div 2)"
  shows "\<exists>bank bpc bps.
           filters s = Inr bank \<and> length bank = 2 * nat (nf div 2) \<and>
           band_pass s (filters_low s) hs ''cos'' = Inr bpc \<and>
           band_pass s (filters_low s) hs ''sin'' = Inr bps \<and>
           bpc ! idx =
             map (\<lambda>(n, w). bp_left_cos (filters_low s ! idx) (hs ! idx) n w)
               (zip (n_buf s0) (window_buf s0)) @
             [fmul (Fin 2) (fsub (hs ! idx) (filters_low s ! idx))] @
             rev (map (\<lambda>(n, w). bp_left_cos (filters_low s ! idx) (hs ! idx) n w)
                    (zip (n_buf s0) (window_buf s0))) \<and>
           bps ! idx =
             map (\<lambda>(n, w). bp_left_sin (filters_low s ! idx) (hs ! idx) n w)
               (zip (n_buf s0) (window_buf s0)) @
             [Fin 0] @
             map fneg (rev (map (\<lambda>(n, w). bp_left_sin (filters_low s ! idx) (hs ! idx) n w)
                    (zip (n_buf s0) (window_buf s0)))) \<and>
           bank ! idx =
             [map (\<lambda>x. fdiv x (fmul (Fin 2) (fsub (hs ! idx) (filters_low s ! idx)))) (bpc ! idx)] \<and>
           bank ! (nat (nf div 2) + idx) =
             [map (\<lambda>x. fdiv x (fmul (Fin 2) (fsub (hs ! idx) (filters_low s ! idx)))) (bps ! idx)]"
proof -
  note shape = init_shape [OF i k nf lp bp, folded s_def]
  from filters_ex [OF shape]
  obtain hs' bpc bps cs ss where
    hs': "filters_high s = Inr hs'"
    and bpc: "band_pass s (filters_low s) hs' ''cos'' = Inr bpc"
    and bps: "band_pass s (filters_low s) hs' ''sin'' = Inr bps"
    and cs: "make_filters s (filters_low s) hs' ''cos'' = Inr cs"
    and ss: "make_filters s (filters_low s) hs' ''sin'' = Inr ss"
    and f: "filters s = Inr (cs @ ss)"
    and lcs: "length cs = nat (nf div 2)" and lss: "length ss = nat (nf div 2)"
    by blast
  from hs hs' have eq: "hs' = hs" by simp
  note nth = filters_nth [OF shape hs idx]
  have bufs: "n_buf s = n_buf s0" "window_buf s = window_buf s0" by (simp_all add: s_def)
  have "(cs @ ss) ! idx = cs ! idx" using idx lcs by (simp add: nth_append)
  moreover have "(cs @ ss) ! (nat (nf div 2) + idx) = ss ! idx" using lcs by (simp add: nth_append)
  moreover have "length (cs @ ss) = 2 * nat (nf div 2)" using lcs lss by simp
  ultimately show ?thesis
    using f bpc bps nth(1) [OF bpc [unfolded eq]] nth(2) [OF bps [unfolded eq]]
      nth(3) [OF bpc [unfolded eq] cs [unfolded eq]] nth(4) [OF bps [unfolded eq] ss [unfolded eq]]
    unfolding eq bufs
    by (intro exI [of _ "cs @ ss"] exI [of _ bpc] exI [of _ bps]) simp
qed

subsection \<open>A zero band\<close>


lemma norm_Fin:
  "fdiv x (fmul (Fin 2) (fsub (Fin hi) (Fin lo))) = fdiv x (Fin (2 * (hi - lo)))"
  by (simp add: fsub_def)



subsection \<open>Finite samples\<close>

lemma n_buf_Fin:
  assumes i: "fst (init nf k st md sr mlo mbd) = Inr s0" and k: "0 < k" and sr: "sr \<noteq> 0"
    and j: "j < nat (cutoff s0)"
  shows "n_buf s0 ! j = Fin (2 * pi * (real j - real_of_int (cutoff s0)) / sr)"
    and "2 * pi * (real j - real_of_int (cutoff s0)) / sr \<noteq> 0"
proof -
  from j have "real j \<noteq> real_of_int (cutoff s0)"
    by (metis less_irrefl nat_int of_int_of_nat_eq of_int_eq_iff)
  with sr show "2 * pi * (real j - real_of_int (cutoff s0)) / sr \<noteq> 0" by simp
  show "n_buf s0 ! j = Fin (2 * pi * (real j - real_of_int (cutoff s0)) / sr)"
    using sr by (simp add: init_buffers(5) [OF i k j])
qed

lemma bp_left_cos_Fin:
  "n \<noteq> 0 \<Longrightarrow>
     bp_left_cos (Fin l) (Fin h) (Fin n) (Fin w) = Fin ((sin (h * n) - sin (l * n)) / (n / 2) * w)"
  by (simp add: bp_left_cos_def fsub_def)

lemma bp_left_sin_Fin:
  "n \<noteq> 0 \<Longrightarrow>
     bp_left_sin (Fin l) (Fin h) (Fin n) (Fin w) = Fin ((cos (l * n) - cos (h * n)) / (n / 2) * w)"
  by (simp add: bp_left_sin_def fsub_def)

lemma left_nth:
  fixes j :: nat and sr :: real and s0 :: SincParamFB
  defines "n \<equiv> 2 * pi * (real j - real_of_int (cutoff s0)) / sr"
  defines "w \<equiv> 0.54 - 0.46 * cos (2 * pi * real j / real_of_int (kernel_size s0 - 1))"
  assumes i: "fst (init nf k st md sr mlo mbd) = Inr s0" and k: "0 < k" and sr: "sr \<noteq> 0"
    and j: "j < nat (cutoff s0)"
  shows "map (\<lambda>(n, w). bp_left_cos (Fin lo) (Fin hi) n w) (zip (n_buf s0) (window_buf s0)) ! j =
           Fin ((sin (hi * n) - sin (lo * n)) / (n / 2) * w)"
    and "map (\<lambda>(n, w). bp_left_sin (Fin lo) (Fin hi) n w) (zip (n_buf s0) (window_buf s0)) ! j =
           Fin ((cos (lo * n) - cos (hi * n)) / (n / 2) * w)"
proof -
  have nb: "n_buf s0 ! j = Fin n" and n0: "n \<noteq> 0"
    using n_buf_Fin [OF i k sr j] by (simp_all add: n_def)
  have wb: "window_buf s0 ! j = Fin w"
    using init_buffers(4) [OF i k j] by (simp add: w_def)
  have l: "j < length (zip (n_buf s0) (window_buf s0))"
    using j init_buffers(2,3) [OF i k] by simp
  then have z: "zip (n_buf s0) (window_buf s0) ! j = (Fin n, Fin w)"
    by (simp add: nb wb)
  show "map (\<lambda>(n, w). bp_left_cos (Fin lo) (Fin hi) n w) (zip (n_buf s0) (window_buf s0)) ! j =
           Fin ((sin (hi * n) - sin (lo * n)) / (n / 2) * w)"
    using l by (simp only: nth_map z prod.case bp_left_cos_Fin [OF n0])
  show "map (\<lambda>(n, w). bp_left_sin (Fin lo) (Fin hi) n w) (zip (n_buf s0) (window_buf s0)) ! j =
           Fin ((cos (lo * n) - cos (hi * n)) / (n / 2) * w)"
    using l by (simp only: nth_map z prod.case bp_left_sin_Fin [OF n0])
qed

lemma init_one:
  assumes "fst (init nf 1 st md sr mlo mbd) = Inr s0"
  shows "kernel_size s0 = 1" and "cutoff s0 = 0" and "window_buf s0 = []" and "n_buf s0 = []"
proof -
  show ks: "kernel_size s0 = 1" using init_Inr(2) [OF assms] by simp
  show c: "cutoff s0 = 0" using init_Inr(3) [OF assms] ks by simp
  show "window_buf s0 = []" by (simp add: init_Inr(9) [OF assms] ks c slice_to_def)
  show "n_buf s0 = []" by (simp add: init_Inr(10) [OF assms] c arange_def)
qed

subsection \<open>The degenerate kernel size\<close>

text \<open>
  C10. With \<open>kernel_size = 1\<close> the cutoff is zero and both buffers are empty, so no
  sample is divided by a time index. For a positive even \<open>n_filters\<close> and any
  parameters of the constructor's shape \<open>filters\<close> returns \<open>n_filters\<close> kernels of one
  channel of one sample; for a filter whose effective frequencies are finite with a
  nonzero band, the row before normalisation is the center sample alone (\<open>2 * band\<close>
  for \<open>cos\<close>, \<open>0\<close> for \<open>sin\<close>), and the kernels are \<open>[[1]]\<close> and \<open>[[0]]\<close>.
\<close>

theorem kernel_size_one:
  fixes s0 lp bp
  defines "s \<equiv> s0\<lparr>low_hz_par := lp, band_hz_par := bp\<rparr>"
  assumes "fst (init nf 1 st md sr mlo mbd) = Inr s0"
    and "0 < nf" and "even nf"
    and "length lp = nat (nf div 2)" and "length bp = nat (nf div 2)"
    and "i < nat (nf div 2)"
    and "filters_low s ! i = Fin lo" and "filters_high s = Inr hs" and "hs ! i = Fin hi"
    and "hi - lo \<noteq> 0"
  shows "kernel_size s0 = 1 \<and> cutoff s0 = 0 \<and> window_buf s0 = [] \<and> n_buf s0 = [] \<and>
         (\<exists>bank bpc bps.
            filters s = Inr bank \<and>
            band_pass s (filters_low s) hs ''cos'' = Inr bpc \<and>
            band_pass s (filters_low s) hs ''sin'' = Inr bps \<and>
            int (length bank) = nf \<and>
            (\<forall>kernel\<in>set bank. length kernel = 1 \<and> (\<forall>ch\<in>set kernel. length ch = 1)) \<and>
            bpc ! i = [Fin (2 * (hi - lo))] \<and> bps ! i = [Fin 0] \<and>
            bank ! i = [[Fin 1]] \<and> bank ! (nat (nf div 2) + i) = [[Fin 0]])"
proof -
  note init = assms(2)
  note one = init_one [OF init]
  have nf0: "0 \<le> nf" using assms(3) by simp
  have k: "(0::int) < 1" by simp
  from constructed_shape [OF init assms(3,4) k assms(5,6), folded s_def]
  obtain bank0 where
    f0: "filters s = Inr bank0" and l0: "int (length bank0) = nf"
    and a0: "\<forall>kernel\<in>set bank0.
               length kernel = 1 \<and> (\<forall>ch\<in>set kernel. int (length ch) = kernel_size s0)"
    by (elim exE conjE) (rule that, assumption+)
  from constructed_kernels [OF init k nf0 assms(5,6) assms(9) [unfolded s_def] assms(7), folded s_def]
  obtain bank bpc bps where
    f: "filters s = Inr bank"
    and bpc: "band_pass s (filters_low s) hs ''cos'' = Inr bpc"
    and bps: "band_pass s (filters_low s) hs ''sin'' = Inr bps"
    and bpci: "bpc ! i =
             map (\<lambda>(n, w). bp_left_cos (filters_low s ! i) (hs ! i) n w)
               (zip (n_buf s0) (window_buf s0)) @
             [fmul (Fin 2) (fsub (hs ! i) (filters_low s ! i))] @
             rev (map (\<lambda>(n, w). bp_left_cos (filters_low s ! i) (hs ! i) n w)
                    (zip (n_buf s0) (window_buf s0)))"
    and bpsi: "bps ! i =
             map (\<lambda>(n, w). bp_left_sin (filters_low s ! i) (hs ! i) n w)
               (zip (n_buf s0) (window_buf s0)) @
             [Fin 0] @
             map fneg (rev (map (\<lambda>(n, w). bp_left_sin (filters_low s ! i) (hs ! i) n w)
                    (zip (n_buf s0) (window_buf s0))))"
    and bc: "bank ! i =
             [map (\<lambda>x. fdiv x (fmul (Fin 2) (fsub (hs ! i) (filters_low s ! i)))) (bpc ! i)]"
    and bs: "bank ! (nat (nf div 2) + i) =
             [map (\<lambda>x. fdiv x (fmul (Fin 2) (fsub (hs ! i) (filters_low s ! i)))) (bps ! i)]"
    by (elim exE conjE) (rule that, assumption+)
  from f f0 have eq: "bank0 = bank" by simp
  have c: "bpc ! i = [Fin (2 * (hi - lo))]"
    by (simp add: bpci one assms(8,10) fsub_def)
  have sn: "bps ! i = [Fin 0]"
    by (simp add: bpsi one)
  have "bank ! i = [[Fin 1]]"
    using assms(11) by (simp add: bc c assms(8,10) norm_Fin)
  moreover have "bank ! (nat (nf div 2) + i) = [[Fin 0]]"
    using assms(11) by (simp add: bs sn assms(8,10) norm_Fin)
  moreover have "\<forall>kernel\<in>set bank. length kernel = 1 \<and> (\<forall>ch\<in>set kernel. length ch = 1)"
    using a0 by (simp add: eq one)
  moreover have "int (length bank) = nf" using l0 by (simp add: eq)
  ultimately show ?thesis using one f bpc bps c sn by blast
qed

theorem kernel_size_one_witness:
  "\<exists>s0.
     fst (init 2 1 1 Encoder 16000 50 50) = Inr s0 \<and> n_buf s0 = [] \<and> window_buf s0 = [] \<and>
     filters (s0\<lparr>low_hz_par := [Fin 100], band_hz_par := [Fin (- 20)]\<rparr>) =
       Inr [[[Fin 1]], [[Fin 0]]]"
proof -
  obtain s0 where i: "fst (init 2 1 1 Encoder 16000 50 50) = Inr s0"
    using init_succeeds [of 2 1 1 Encoder 16000 50 50] by auto
  let ?s = "s0\<lparr>low_hz_par := [Fin 100], band_hz_par := [Fin (- 20)]\<rparr>"
  have flds: "min_low_hz ?s = 50" "min_band_hz ?s = 50" "sample_rate ?s = 16000"
    using init_Inr(4-6) [OF i] by simp_all
  have lo: "filters_low ?s ! 0 = Fin 150"
    by (simp add: filters_low_def flds)
  have "length (low_hz_par ?s) = length (band_hz_par ?s)" by simp
  from filters_high_same [OF this] have hs: "filters_high ?s = Inr [Fin 220]"
    by (simp add: filters_low_def flds)
  have hi: "[Fin 220] ! 0 = Fin 220" by simp
  have "(0::int) < 2" and "even (2::int)"
    and "length [Fin 100] = nat (2 div 2)" and "length [Fin (- 20)] = nat (2 div 2)"
    and "0 < nat (2 div 2)" and "(220::real) - 150 \<noteq> 0"
    by simp_all
  from kernel_size_one [OF i this(1-5) lo hs hi this(6)]
  obtain bank where
    e: "n_buf s0 = []" "window_buf s0 = []"
    and f: "filters ?s = Inr bank" and l: "int (length bank) = 2"
    and b: "bank ! 0 = [[Fin 1]]" "bank ! (nat (2 div 2) + 0) = [[Fin 0]]"
    by (elim exE conjE) (rule that, assumption+)
  from l have "length bank = 2" by simp
  with b have "bank = [[[Fin 1]], [[Fin 0]]]"
    by (cases bank; cases "tl bank") auto
  with i e f show ?thesis by blast
qed

subsection \<open>The closed form of the kernels\<close>

lemma mirror_nth:
  assumes "length L = c" and "j < c"
  shows "map g (L @ [x] @ rev L) ! (c - 1 - j) = g (L ! (c - 1 - j))"
    and "map g (L @ [x] @ rev L) ! (c + 1 + j) = g (L ! (c - 1 - j))"
    and "map g (L @ [x] @ map f (rev L)) ! (c - 1 - j) = g (L ! (c - 1 - j))"
    and "map g (L @ [x] @ map f (rev L)) ! (c + 1 + j) = g (f (L ! (c - 1 - j)))"
  using assms by (simp_all add: nth_append rev_nth)

lemma center_nth:
  assumes "length L = c"
  shows "map g (L @ [x] @ R) ! c = g x"
  using assms by (simp add: nth_append)

lemma left_half_nth:
  assumes "length L = c" and "j < c"
  shows "map g (L @ [x] @ R) ! j = g (L ! j)"
  using assms by (simp add: nth_append)

lemma fdiv_Fin: "d \<noteq> 0 \<Longrightarrow> fdiv (Fin x) (Fin d) = Fin (x / d)"
  by simp

text \<open>
  C1. On a constructed object with a nonzero sample rate, for a filter \<open>i\<close> whose
  effective frequencies \<open>lo\<close> and \<open>hi\<close> are finite with \<open>hi - lo\<close> nonzero, and for
  every index \<open>j\<close> below the cutoff (so the stored kernel size is odd and at least 3):
  sample \<open>j\<close> of the \<open>cos\<close> kernel is
  \<open>(sin (hi n) - sin (lo n)) / (n / 2) * w / (2 (hi - lo))\<close> and sample \<open>j\<close> of the
  \<open>sin\<close> kernel is \<open>(cos (lo n) - cos (hi n)) / (n / 2) * w / (2 (hi - lo))\<close>, with
  \<open>n = 2 pi (j - cutoff) / sample_rate\<close>, entry \<open>j\<close> of the time-index buffer, and
  \<open>w = 0.54 - 0.46 cos (2 pi j / (kernel_size - 1))\<close>, entry \<open>j\<close> of the window buffer
  and of the Hamming window of length \<open>kernel_size\<close>. Before the normalisation the
  center sample is \<open>2 (hi - lo)\<close> for \<open>cos\<close> and \<open>0\<close> for \<open>sin\<close>, and each kernel is its
  row divided by \<open>2 (hi - lo)\<close>.
\<close>

theorem kernel_formula:
  fixes s0 lp bp and j :: nat and sr lo hi :: real
  defines "s \<equiv> s0\<lparr>low_hz_par := lp, band_hz_par := bp\<rparr>"
  defines "n \<equiv> 2 * pi * (real j - real_of_int (cutoff s0)) / sr"
  defines "w \<equiv> 0.54 - 0.46 * cos (2 * pi * real j / real_of_int (kernel_size s0 - 1))"
  assumes "fst (init nf k st md sr mlo mbd) = Inr s0"
    and "0 < k" and "0 \<le> nf" and "sr \<noteq> 0"
    and "length lp = nat (nf div 2)" and "length bp = nat (nf div 2)"
    and "i < nat (nf div 2)" and "j < nat (cutoff s0)"
    and "filters_low s ! i = Fin lo" and "filters_high s = Inr hs" and "hs ! i = Fin hi"
    and "hi - lo \<noteq> 0"
  shows "\<exists>bank bpc bps.
           filters s = Inr bank \<and>
           band_pass s (filters_low s) hs ''cos'' = Inr bpc \<and>
           band_pass s (filters_low s) hs ''sin'' = Inr bps \<and>
           odd (kernel_size s0) \<and> 3 \<le> kernel_size s0 \<and>
           n_buf s0 ! j = Fin n \<and> window_buf s0 ! j = Fin w \<and>
           hamming (kernel_size s0) ! j = Fin w \<and>
           bank ! i ! 0 ! j =
             Fin ((sin (hi * n) - sin (lo * n)) / (n / 2) * w / (2 * (hi - lo))) \<and>
           bank ! (nat (nf div 2) + i) ! 0 ! j =
             Fin ((cos (lo * n) - cos (hi * n)) / (n / 2) * w / (2 * (hi - lo))) \<and>
           bpc ! i ! nat (cutoff s0) = Fin (2 * (hi - lo)) \<and>
           bps ! i ! nat (cutoff s0) = Fin 0 \<and>
           bank ! i = [map (\<lambda>x. fdiv x (Fin (2 * (hi - lo)))) (bpc ! i)] \<and>
           bank ! (nat (nf div 2) + i) = [map (\<lambda>x. fdiv x (Fin (2 * (hi - lo)))) (bps ! i)]"
proof -
  note init = assms(4) and k = assms(5) and sr = assms(7) and j = assms(11)
  let ?c = "nat (cutoff s0)"
  let ?Lc = "map (\<lambda>(n, w). bp_left_cos (Fin lo) (Fin hi) n w) (zip (n_buf s0) (window_buf s0))"
  let ?Ls = "map (\<lambda>(n, w). bp_left_sin (Fin lo) (Fin hi) n w) (zip (n_buf s0) (window_buf s0))"
  let ?g = "\<lambda>x. fdiv x (Fin (2 * (hi - lo)))"
  from constructed_kernels [OF init k assms(6,8,9) assms(13) [unfolded s_def] assms(10), folded s_def]
  obtain bank bpc bps where
    f: "filters s = Inr bank"
    and bpc: "band_pass s (filters_low s) hs ''cos'' = Inr bpc"
    and bps: "band_pass s (filters_low s) hs ''sin'' = Inr bps"
    and bpci: "bpc ! i =
             map (\<lambda>(n, w). bp_left_cos (filters_low s ! i) (hs ! i) n w)
               (zip (n_buf s0) (window_buf s0)) @
             [fmul (Fin 2) (fsub (hs ! i) (filters_low s ! i))] @
             rev (map (\<lambda>(n, w). bp_left_cos (filters_low s ! i) (hs ! i) n w)
                    (zip (n_buf s0) (window_buf s0)))"
    and bpsi: "bps ! i =
             map (\<lambda>(n, w). bp_left_sin (filters_low s ! i) (hs ! i) n w)
               (zip (n_buf s0) (window_buf s0)) @
             [Fin 0] @
             map fneg (rev (map (\<lambda>(n, w). bp_left_sin (filters_low s ! i) (hs ! i) n w)
                    (zip (n_buf s0) (window_buf s0))))"
    and bc: "bank ! i =
             [map (\<lambda>x. fdiv x (fmul (Fin 2) (fsub (hs ! i) (filters_low s ! i)))) (bpc ! i)]"
    and bs: "bank ! (nat (nf div 2) + i) =
             [map (\<lambda>x. fdiv x (fmul (Fin 2) (fsub (hs ! i) (filters_low s ! i)))) (bps ! i)]"
    by (elim exE conjE) (rule that, assumption+)
  have d: "2 * (hi - lo) \<noteq> 0" using assms(15) by simp
  have two: "fmul (Fin 2) (fsub (Fin hi) (Fin lo)) = Fin (2 * (hi - lo))" by (simp add: fsub_def)
  have rc: "bpc ! i = ?Lc @ [Fin (2 * (hi - lo))] @ rev ?Lc"
    by (simp only: bpci assms(12,14) two)
  have rs: "bps ! i = ?Ls @ [Fin 0] @ map fneg (rev ?Ls)"
    by (simp only: bpsi assms(12,14))
  have kc: "bank ! i = [map ?g (bpc ! i)]"
    by (simp only: bc assms(12,14) two)
  have ks: "bank ! (nat (nf div 2) + i) = [map ?g (bps ! i)]"
    by (simp only: bs assms(12,14) two)
  have lc: "length ?Lc = ?c" and ls: "length ?Ls = ?c"
    using init_buffers(2,3) [OF init k] by simp_all
  have odd: "odd (kernel_size s0)" by (rule init_odd(1) [OF init])
  have three: "3 \<le> kernel_size s0"
    using init_odd(3) [OF init] j by simp
  have cj: "?Lc ! j = Fin ((sin (hi * n) - sin (lo * n)) / (n / 2) * w)"
    unfolding n_def w_def by (rule left_nth(1) [OF init k sr j])
  have sj: "?Ls ! j = Fin ((cos (lo * n) - cos (hi * n)) / (n / 2) * w)"
    unfolding n_def w_def by (rule left_nth(2) [OF init k sr j])
  have "bank ! i ! 0 ! j = ?g (?Lc ! j)"
    by (simp only: kc rc nth_Cons_0 left_half_nth [OF lc j])
  then have e1: "bank ! i ! 0 ! j =
      Fin ((sin (hi * n) - sin (lo * n)) / (n / 2) * w / (2 * (hi - lo)))"
    by (simp only: cj fdiv_Fin [OF d])
  have "bank ! (nat (nf div 2) + i) ! 0 ! j = ?g (?Ls ! j)"
    by (simp only: ks rs nth_Cons_0 left_half_nth [OF ls j])
  then have e2: "bank ! (nat (nf div 2) + i) ! 0 ! j =
      Fin ((cos (lo * n) - cos (hi * n)) / (n / 2) * w / (2 * (hi - lo)))"
    by (simp only: sj fdiv_Fin [OF d])
  have c1: "bpc ! i ! ?c = Fin (2 * (hi - lo))"
    by (simp only: rc row_nth(2) [OF lc])
  have c2: "bps ! i ! ?c = Fin 0"
    by (simp only: rs row_nth(2) [OF ls])
  have nb: "n_buf s0 ! j = Fin n"
    unfolding n_def by (rule n_buf_Fin(1) [OF init k sr j])
  have wb: "window_buf s0 ! j = Fin w"
    unfolding w_def by (rule init_buffers(4) [OF init k j])
  have hm: "hamming (kernel_size s0) ! j = Fin w"
    unfolding w_def using three j init_odd(3) [OF init] by (intro nth_hamming) simp_all
  show ?thesis
    using f bpc bps odd three nb wb hm e1 e2 c1 c2 kc ks by blast
qed

theorem kernel_formula_witness:
  "\<exists>s0 bank.
     fst (init 2 3 1 Encoder 16000 50 50) = Inr s0 \<and> kernel_size s0 = 3 \<and> cutoff s0 = 1 \<and>
     filters (s0\<lparr>low_hz_par := [Fin 0], band_hz_par := [Fin 0]\<rparr>) = Inr bank \<and>
     bank ! 0 ! 0 ! 0 =
       Fin ((sin (100 * (2 * pi * (real 0 - real_of_int (cutoff s0)) / 16000)) -
             sin (50 * (2 * pi * (real 0 - real_of_int (cutoff s0)) / 16000))) /
            (2 * pi * (real 0 - real_of_int (cutoff s0)) / 16000 / 2) *
            (0.54 - 0.46 * cos (2 * pi * real 0 / real_of_int (kernel_size s0 - 1))) /
            (2 * (100 - 50)))"
proof -
  obtain s0 where i: "fst (init 2 3 1 Encoder 16000 50 50) = Inr s0"
    using init_succeeds [of 2 3 1 Encoder 16000 50 50] by auto
  have ks: "kernel_size s0 = 3" and c: "cutoff s0 = 1"
    using init_Inr(2,3) [OF i] by simp_all
  let ?s = "s0\<lparr>low_hz_par := [Fin 0], band_hz_par := [Fin 0]\<rparr>"
  have flds: "min_low_hz ?s = 50" "min_band_hz ?s = 50" "sample_rate ?s = 16000"
    using init_Inr(4-6) [OF i] by simp_all
  have lo: "filters_low ?s ! 0 = Fin 50"
    by (simp add: filters_low_def flds)
  have "length (low_hz_par ?s) = length (band_hz_par ?s)" by simp
  from filters_high_same [OF this] have hs: "filters_high ?s = Inr [Fin 100]"
    by (simp add: filters_low_def flds)
  have hi: "[Fin 100] ! 0 = Fin 100" by simp
  have "(0::int) < 3" and "(0::int) \<le> 2" and "(16000::real) \<noteq> 0"
    and "length [Fin 0] = nat (2 div 2)" and "length [Fin 0] = nat (2 div 2)"
    and "0 < nat (2 div 2)" and "0 < nat (cutoff s0)" and "(100::real) - 50 \<noteq> 0"
    by (simp_all add: c)
  from kernel_formula [OF i this(1-7) lo hs hi this(8)]
  obtain bank where
    f: "filters ?s = Inr bank"
    and e: "bank ! 0 ! 0 ! 0 =
       Fin ((sin (100 * (2 * pi * (real 0 - real_of_int (cutoff s0)) / 16000)) -
             sin (50 * (2 * pi * (real 0 - real_of_int (cutoff s0)) / 16000))) /
            (2 * pi * (real 0 - real_of_int (cutoff s0)) / 16000 / 2) *
            (0.54 - 0.46 * cos (2 * pi * real 0 / real_of_int (kernel_size s0 - 1))) /
            (2 * (100 - 50)))"
    by (elim exE conjE) (rule that, assumption+)
  from i ks c f e show ?thesis by blast
qed

subsection \<open>Symmetry of the kernels\<close>

text \<open>
  C3. On a constructed object with a nonzero sample rate, for a filter \<open>i\<close> whose
  effective frequencies are finite with a nonzero band: every sample of its two
  kernels left of the center is a finite number; the \<open>cos\<close> kernel (index \<open>i\<close>, in the
  first half of the bank) is mirror-symmetric about the center,
  \<open>kernel[cutoff - 1 - j] = kernel[cutoff + 1 + j]\<close>; the \<open>sin\<close> kernel (index
  \<open>n_filters / 2 + i\<close>) is antisymmetric,
  \<open>kernel[cutoff + 1 + j] = - kernel[cutoff - 1 - j]\<close>, with center sample \<open>0\<close>; the
  center sample of the \<open>cos\<close> kernel is \<open>1\<close>.
\<close>

theorem kernel_symmetry:
  fixes s0 lp bp and sr lo hi :: real and nf :: int
  defines "s \<equiv> s0\<lparr>low_hz_par := lp, band_hz_par := bp\<rparr>"
  defines "c \<equiv> nat (cutoff s0)"
  defines "m \<equiv> nat (nf div 2)"
  assumes "fst (init nf k st md sr mlo mbd) = Inr s0"
    and "0 < k" and "0 \<le> nf" and "sr \<noteq> 0"
    and "length lp = nat (nf div 2)" and "length bp = nat (nf div 2)"
    and "i < nat (nf div 2)"
    and "filters_low s ! i = Fin lo" and "filters_high s = Inr hs" and "hs ! i = Fin hi"
    and "hi - lo \<noteq> 0"
  shows "\<exists>bank.
           filters s = Inr bank \<and> length bank = 2 * m \<and>
           int (length (bank ! i ! 0)) = kernel_size s0 \<and>
           int (length (bank ! (m + i) ! 0)) = kernel_size s0 \<and>
           kernel_size s0 = 2 * int c + 1 \<and>
           bank ! i ! 0 ! c = Fin 1 \<and>
           bank ! (m + i) ! 0 ! c = Fin 0 \<and>
           (\<forall>j<c.
              is_finite (bank ! i ! 0 ! (c - 1 - j)) \<and>
              bank ! i ! 0 ! (c - 1 - j) = bank ! i ! 0 ! (c + 1 + j) \<and>
              is_finite (bank ! (m + i) ! 0 ! (c - 1 - j)) \<and>
              bank ! (m + i) ! 0 ! (c + 1 + j) = fneg (bank ! (m + i) ! 0 ! (c - 1 - j)))"
proof -
  note init = assms(4) and k = assms(5) and sr = assms(7)
  let ?Lc = "map (\<lambda>(n, w). bp_left_cos (Fin lo) (Fin hi) n w) (zip (n_buf s0) (window_buf s0))"
  let ?Ls = "map (\<lambda>(n, w). bp_left_sin (Fin lo) (Fin hi) n w) (zip (n_buf s0) (window_buf s0))"
  let ?g = "\<lambda>x. fdiv x (Fin (2 * (hi - lo)))"
  from constructed_kernels [OF init k assms(6,8,9) assms(12) [unfolded s_def] assms(10), folded s_def]
  obtain bank bpc bps where
    f: "filters s = Inr bank" and lb: "length bank = 2 * nat (nf div 2)"
    and bpci: "bpc ! i =
             map (\<lambda>(n, w). bp_left_cos (filters_low s ! i) (hs ! i) n w)
               (zip (n_buf s0) (window_buf s0)) @
             [fmul (Fin 2) (fsub (hs ! i) (filters_low s ! i))] @
             rev (map (\<lambda>(n, w). bp_left_cos (filters_low s ! i) (hs ! i) n w)
                    (zip (n_buf s0) (window_buf s0)))"
    and bpsi: "bps ! i =
             map (\<lambda>(n, w). bp_left_sin (filters_low s ! i) (hs ! i) n w)
               (zip (n_buf s0) (window_buf s0)) @
             [Fin 0] @
             map fneg (rev (map (\<lambda>(n, w). bp_left_sin (filters_low s ! i) (hs ! i) n w)
                    (zip (n_buf s0) (window_buf s0))))"
    and bc: "bank ! i =
             [map (\<lambda>x. fdiv x (fmul (Fin 2) (fsub (hs ! i) (filters_low s ! i)))) (bpc ! i)]"
    and bs: "bank ! (nat (nf div 2) + i) =
             [map (\<lambda>x. fdiv x (fmul (Fin 2) (fsub (hs ! i) (filters_low s ! i)))) (bps ! i)]"
    by (elim exE conjE) (rule that, assumption+)
  have d: "2 * (hi - lo) \<noteq> 0" using assms(14) by simp
  have two: "fmul (Fin 2) (fsub (Fin hi) (Fin lo)) = Fin (2 * (hi - lo))" by (simp add: fsub_def)
  have kc: "bank ! i ! 0 = map ?g (?Lc @ [Fin (2 * (hi - lo))] @ rev ?Lc)"
    by (simp only: bc bpci assms(11,13) two nth_Cons_0)
  have ks: "bank ! (m + i) ! 0 = map ?g (?Ls @ [Fin 0] @ map fneg (rev ?Ls))"
    by (simp only: m_def bs bpsi assms(11,13) two nth_Cons_0)
  have lc: "length ?Lc = c" and ls: "length ?Ls = c"
    using init_buffers(2,3) [OF init k] by (simp_all add: c_def)
  have size: "kernel_size s0 = 2 * int c + 1"
    using init_odd(3) [OF init] init_buffers(1) [OF init k] by (simp add: c_def)
  have lnb: "length (n_buf s0) = c" and lwb: "length (window_buf s0) = c"
    using init_buffers(2,3) [OF init k] by (simp_all add: c_def)
  have l1: "int (length (bank ! i ! 0)) = kernel_size s0"
    by (simp add: kc lnb lwb size)
  have l2: "int (length (bank ! (m + i) ! 0)) = kernel_size s0"
    by (simp add: ks lnb lwb size)
  have c1: "bank ! i ! 0 ! c = Fin 1"
    using d by (simp only: kc center_nth [OF lc]) simp
  have c2: "bank ! (m + i) ! 0 ! c = Fin 0"
    using d by (simp only: ks center_nth [OF ls]) simp
  have sym: "is_finite (bank ! i ! 0 ! (c - 1 - j)) \<and>
             bank ! i ! 0 ! (c - 1 - j) = bank ! i ! 0 ! (c + 1 + j) \<and>
             is_finite (bank ! (m + i) ! 0 ! (c - 1 - j)) \<and>
             bank ! (m + i) ! 0 ! (c + 1 + j) = fneg (bank ! (m + i) ! 0 ! (c - 1 - j))"
    if j: "j < c" for j
  proof -
    from j have j': "c - 1 - j < nat (cutoff s0)" by (simp add: c_def)
    from left_nth(1) [OF init k sr j', of lo hi] obtain x where x: "?Lc ! (c - 1 - j) = Fin x"
      by blast
    from left_nth(2) [OF init k sr j', of lo hi] obtain y where y: "?Ls ! (c - 1 - j) = Fin y"
      by blast
    have a: "bank ! i ! 0 ! (c - 1 - j) = Fin (x / (2 * (hi - lo)))"
      by (simp only: kc mirror_nth(1) [OF lc j] x fdiv_Fin [OF d])
    have b: "bank ! i ! 0 ! (c + 1 + j) = Fin (x / (2 * (hi - lo)))"
      by (simp only: kc mirror_nth(2) [OF lc j] x fdiv_Fin [OF d])
    have a': "bank ! (m + i) ! 0 ! (c - 1 - j) = Fin (y / (2 * (hi - lo)))"
      by (simp only: ks mirror_nth(3) [OF ls j] y fdiv_Fin [OF d])
    have b': "bank ! (m + i) ! 0 ! (c + 1 + j) = Fin (- y / (2 * (hi - lo)))"
      by (simp only: ks mirror_nth(4) [OF ls j] y fneg.simps fdiv_Fin [OF d])
    show ?thesis by (simp only: a b a' b' is_finite.simps fneg.simps) simp
  qed
  show ?thesis
    using f lb l1 l2 size c1 c2 sym unfolding m_def [symmetric]
    by (intro exI [of _ bank]) blast
qed

theorem kernel_symmetry_witness:
  "\<exists>s0 bank.
     fst (init 2 3 1 Encoder 16000 50 50) = Inr s0 \<and> kernel_size s0 = 3 \<and>
     filters (s0\<lparr>low_hz_par := [Fin 0], band_hz_par := [Fin 0]\<rparr>) = Inr bank \<and>
     length bank = 2 \<and> length (bank ! 0 ! 0) = 3 \<and>
     is_finite (bank ! 0 ! 0 ! 0) \<and> bank ! 0 ! 0 ! 0 = bank ! 0 ! 0 ! 2 \<and>
     bank ! 0 ! 0 ! 1 = Fin 1 \<and>
     is_finite (bank ! 1 ! 0 ! 0) \<and> bank ! 1 ! 0 ! 2 = fneg (bank ! 1 ! 0 ! 0) \<and>
     bank ! 1 ! 0 ! 1 = Fin 0"
proof -
  obtain s0 where i: "fst (init 2 3 1 Encoder 16000 50 50) = Inr s0"
    using init_succeeds [of 2 3 1 Encoder 16000 50 50] by auto
  have ks: "kernel_size s0 = 3" and c: "cutoff s0 = 1"
    using init_Inr(2,3) [OF i] by simp_all
  let ?s = "s0\<lparr>low_hz_par := [Fin 0], band_hz_par := [Fin 0]\<rparr>"
  have flds: "min_low_hz ?s = 50" "min_band_hz ?s = 50" "sample_rate ?s = 16000"
    using init_Inr(4-6) [OF i] by simp_all
  have lo: "filters_low ?s ! 0 = Fin 50"
    by (simp add: filters_low_def flds)
  have "length (low_hz_par ?s) = length (band_hz_par ?s)" by simp
  from filters_high_same [OF this] have hs: "filters_high ?s = Inr [Fin 100]"
    by (simp add: filters_low_def flds)
  have hi: "[Fin 100] ! 0 = Fin 100" by simp
  have "(0::int) < 3" and "(0::int) \<le> 2" and "(16000::real) \<noteq> 0"
    and "length [Fin 0] = nat (2 div 2)" and "length [Fin 0] = nat (2 div 2)"
    and "0 < nat (2 div 2)" and "(100::real) - 50 \<noteq> 0"
    by simp_all
  from kernel_symmetry [OF i this(1-6) lo hs hi this(7)]
  obtain bank where
    f: "filters ?s = Inr bank" and lb: "length bank = 2 * nat (2 div 2)"
    and l: "int (length (bank ! 0 ! 0)) = kernel_size s0"
    and c1: "bank ! 0 ! 0 ! nat (cutoff s0) = Fin 1"
    and c2: "bank ! (nat (2 div 2) + 0) ! 0 ! nat (cutoff s0) = Fin 0"
    and sym: "\<forall>j<nat (cutoff s0).
              is_finite (bank ! 0 ! 0 ! (nat (cutoff s0) - 1 - j)) \<and>
              bank ! 0 ! 0 ! (nat (cutoff s0) - 1 - j) = bank ! 0 ! 0 ! (nat (cutoff s0) + 1 + j) \<and>
              is_finite (bank ! (nat (2 div 2) + 0) ! 0 ! (nat (cutoff s0) - 1 - j)) \<and>
              bank ! (nat (2 div 2) + 0) ! 0 ! (nat (cutoff s0) + 1 + j) =
                fneg (bank ! (nat (2 div 2) + 0) ! 0 ! (nat (cutoff s0) - 1 - j))"
    by (elim exE conjE) (rule that, assumption+)
  have pos: "0 < nat (cutoff s0)" by (simp add: c)
  have idx: "nat (cutoff s0) - 1 - 0 = 0" "nat (cutoff s0) + 1 + 0 = 2" "nat (2 div 2) + 0 = 1"
    and ctr: "nat (cutoff s0) = 1"
    by (simp_all add: c)
  note sym0 = sym [rule_format, OF pos, unfolded idx]
  note c1' = c1 [unfolded ctr] and c2' = c2 [unfolded idx(3) ctr]
  from lb have lb': "length bank = 2" by simp
  from l have l': "length (bank ! 0 ! 0) = 3" by (simp add: ks)
  from i ks f lb' l' sym0 c1' c2' show ?thesis by blast
qed

subsection \<open>Initial parameters\<close>

lemma linspace_Fin:
  assumes num: "0 \<le> num" and i: "i < nat num"
    and mel: "linspace (Fin a) (Fin b) num = Inr mel"
  shows "mel ! i = Fin (a + real i * (b - a) / real_of_int (num - 1))"
proof (cases "1 < num")
  case True
  let ?step = "Fin ((b - a) / real_of_int (num - 1))"
  let ?y = "map (\<lambda>i. fadd (fmul (Fin (real_of_int i)) ?step) (Fin a)) [0..num - 1]"
  have m: "mel = ?y[length ?y - 1 := Fin b]"
    using mel True by (simp add: linspace_def Let_def fsub_def)
  have ly: "length ?y = nat num" using True by simp
  show ?thesis
  proof (cases "i = nat num - 1")
    case last: True
    then have "real i = real_of_int (num - 1)" using True by simp
    then have "a + real i * (b - a) / real_of_int (num - 1) = b" using True by simp
    moreover have "mel ! i = Fin b" using i last by (simp only: m ly nth_list_update_eq)
    ultimately show ?thesis by simp
  next
    case False
    then have "mel ! i = ?y ! i" by (simp only: m ly nth_list_update_neq not_False_eq_True)
    also have "\<dots> = Fin (real i * ((b - a) / real_of_int (num - 1)) + a)"
      using i True by simp
    finally show ?thesis by (simp add: add.commute)
  qed
next
  case False
  with num i have n1: "num = 1" and i0: "i = 0" by auto
  from mel have "mel = [Fin a]" by (auto simp: linspace_def Let_def fsub_def n1)
  then show ?thesis by (simp add: i0 n1)
qed

text \<open>
  C5. After construction with a positive \<open>n_filters\<close>, with \<open>mel\<close> the
  \<open>n_filters / 2 + 1\<close> points of \<open>np.linspace\<close> between \<open>to_mel 30\<close> and
  \<open>to_mel (sample_rate / 2 - (min_low_hz + min_band_hz))\<close> and \<open>hz\<close> their images under
  \<open>to_hz\<close>: both parameters have \<open>n_filters / 2\<close> entries, \<open>low_hz_[i] = hz[i]\<close> (the
  last point dropped) and \<open>band_hz_[i] = hz[i + 1] - hz[i]\<close>. When the upper bound
  is above \<open>-700\<close> Hz (the logarithm is defined), the points are linearly spaced,
  \<open>mel[i] = a + i (b - a) / (n_filters / 2)\<close> from \<open>a = to_mel 30\<close> to the upper end
  \<open>b\<close>, and the first low frequency is \<open>30\<close>.
\<close>

theorem initial_parameters:
  fixes sr mlo mbd :: real and nf :: int
  defines "m \<equiv> nat (nf div 2)"
  defines "a \<equiv> 2595 * log 10 (1 + 30 / 700)"
  defines "b \<equiv> 2595 * log 10 (1 + (sr / 2 - (mlo + mbd)) / 700)"
  assumes "fst (init nf k st md sr mlo mbd) = Inr s0" and "0 < nf"
  shows "\<exists>mel.
           linspace (to_mel (Fin 30)) (to_mel (Fin (sr / 2 - (mlo + mbd)))) (nf div 2 + 1) = Inr mel \<and>
           length mel = m + 1 \<and>
           length (low_hz_par s0) = m \<and> length (band_hz_par s0) = m \<and>
           (\<forall>i<m. low_hz_par s0 ! i = to_hz (mel ! i) \<and>
                  band_hz_par s0 ! i = fsub (to_hz (mel ! (i + 1))) (to_hz (mel ! i))) \<and>
           (- 700 < sr / 2 - (mlo + mbd) \<longrightarrow>
              (\<forall>i\<le>m. mel ! i = Fin (a + real i * (b - a) / real m)) \<and>
              (0 < m \<longrightarrow> low_hz_par s0 ! 0 = Fin 30))"
proof -
  note init = assms(4)
  have nf0: "0 \<le> nf" using assms(5) by simp
  then have num: "0 \<le> nf div 2 + 1" and num1: "nat (nf div 2 + 1) = m + 1"
    and dv: "real_of_int (nf div 2 + 1 - 1) = real m"
    by (simp_all add: m_def)
  from init_Inr(11) [OF init] obtain mel where
    mel: "linspace (to_mel (Fin 30)) (to_mel (Fin (sr / 2 - (mlo + mbd)))) (nf div 2 + 1) = Inr mel"
    and lo: "low_hz_par s0 = butlast (map to_hz mel)"
    and bd: "band_hz_par s0 = diff (map to_hz mel)"
    by blast
  from linspace_Inr [OF num, of "to_mel (Fin 30)" "to_mel (Fin (sr / 2 - (mlo + mbd)))"] mel
  have lm: "length mel = m + 1" by (simp add: num1)
  have ll: "length (low_hz_par s0) = m" and lb: "length (band_hz_par s0) = m"
    by (simp_all add: lo bd lm length_diff)
  have nth: "low_hz_par s0 ! i = to_hz (mel ! i) \<and>
             band_hz_par s0 ! i = fsub (to_hz (mel ! (i + 1))) (to_hz (mel ! i))"
    if "i < m" for i
    using that by (simp add: lo bd lm nth_butlast nth_diff)
  have fin: "(\<forall>i\<le>m. mel ! i = Fin (a + real i * (b - a) / real m)) \<and>
             (0 < m \<longrightarrow> low_hz_par s0 ! 0 = Fin 30)"
    if h: "- 700 < sr / 2 - (mlo + mbd)"
  proof -
    have ta: "to_mel (Fin 30) = Fin a" by (simp add: to_mel_Fin a_def)
    have tb: "to_mel (Fin (sr / 2 - (mlo + mbd))) = Fin b" using h by (simp add: to_mel_Fin b_def)
    have sp: "mel ! i = Fin (a + real i * (b - a) / real m)" if "i \<le> m" for i
    proof -
      from that have "i < nat (nf div 2 + 1)" by (simp add: num1)
      from linspace_Fin [OF num this mel [unfolded ta tb]] show ?thesis by (simp only: dv)
    qed
    have "low_hz_par s0 ! 0 = Fin 30" if "0 < m"
    proof -
      from sp [of 0] have "mel ! 0 = to_mel (Fin 30)" by (simp add: ta)
      with nth [OF that] show ?thesis by (simp add: to_hz_to_mel)
    qed
    with sp show ?thesis by blast
  qed
  show ?thesis
    using mel lm ll lb nth fin by (intro exI [of _ mel]) blast
qed

theorem initial_parameters_witness:
  "\<exists>s0 mel.
     fst (init 4 5 1 Encoder 16000 50 50) = Inr s0 \<and>
     linspace (to_mel (Fin 30)) (to_mel (Fin (16000 / 2 - (50 + 50)))) (4 div 2 + 1) = Inr mel \<and>
     length mel = 3 \<and> length (low_hz_par s0) = 2 \<and> length (band_hz_par s0) = 2 \<and>
     low_hz_par s0 ! 0 = Fin 30 \<and>
     low_hz_par s0 ! 1 = to_hz (mel ! 1) \<and>
     band_hz_par s0 ! 1 = fsub (to_hz (mel ! (1 + 1))) (to_hz (mel ! 1))"
proof -
  obtain s0 where i: "fst (init 4 5 1 Encoder 16000 50 50) = Inr s0"
    using init_succeeds [of 4 5 1 Encoder 16000 50 50] by auto
  have nf: "(0::int) < 4" by simp
  from initial_parameters [OF i nf]
  obtain mel where
    mel: "linspace (to_mel (Fin 30)) (to_mel (Fin (16000 / 2 - (50 + 50)))) (4 div 2 + 1) = Inr mel"
    and lm: "length mel = nat (4 div 2) + 1"
    and ll: "length (low_hz_par s0) = nat (4 div 2)"
    and lb: "length (band_hz_par s0) = nat (4 div 2)"
    and nth: "\<forall>i<nat (4 div 2). low_hz_par s0 ! i = to_hz (mel ! i) \<and>
                  band_hz_par s0 ! i = fsub (to_hz (mel ! (i + 1))) (to_hz (mel ! i))"
    and fin: "- 700 < (16000::real) / 2 - (50 + 50) \<longrightarrow>
              (\<forall>i\<le>nat (4 div 2).
                 mel ! i = Fin (2595 * log 10 (1 + 30 / 700) +
                   real i * (2595 * log 10 (1 + (16000 / 2 - (50 + 50)) / 700) -
                     2595 * log 10 (1 + 30 / 700)) / real (nat (4 div 2)))) \<and>
              (0 < nat (4 div 2) \<longrightarrow> low_hz_par s0 ! 0 = Fin 30)"
    by (elim exE conjE) (rule that, assumption+)
  have "- 700 < (16000::real) / 2 - (50 + 50)" and "0 < nat (4 div 2)" and "1 < nat (4 div 2)"
    by simp_all
  with fin nth have "low_hz_par s0 ! 0 = Fin 30"
    and "low_hz_par s0 ! 1 = to_hz (mel ! 1) \<and>
         band_hz_par s0 ! 1 = fsub (to_hz (mel ! (1 + 1))) (to_hz (mel ! 1))"
    by blast+
  moreover from lm ll lb have "length mel = 3" "length (low_hz_par s0) = 2"
    "length (band_hz_par s0) = 2"
    by simp_all
  ultimately show ?thesis using i mel by blast
qed

end
